theory Spec2Isabelle
  imports Complex_Main "HOL-Library.Sublist" "HOL-Library.Word"
begin

section \<open>freepcb2pretty: a shallow embedding\<close>

text \<open>
  The converter of \<^verbatim>\<open>freepcb2pretty.py\<close> is embedded function by function.
  Python exceptions are values of \<open>error\<close>; a function that can raise returns
  \<open>error + 'a\<close> with \<open>Inl\<close> the raised exception. Objects mutated in place are
  passed in and returned. Python integers are \<open>int\<close>. Python floats are idealised
  as \<open>real\<close>: a quotient such as \<open>float(n) / 1000000.\<close> stands for the exact
  quotient, of which the Python value is the nearest double. Where the operands of a
  product or a sum are floats already (the conversion from millimetres and the corners
  of a courtyard), the rounding is written out: \<open>round_double\<close> takes a real to
  the nearest double.
\<close>

subsection \<open>Exceptions\<close>

datatype error =
    IndexError
  | AssertionError
  | AttributeError
  | ValueError
  | StructError
  | ExpectedValue int  \<comment> \<open>\<^verbatim>\<open>Line %d: expected value\<close>\<close>
  | UnexpectedKey string int  \<comment> \<open>\<^verbatim>\<open>Unexpected key "%s" on line %d.\<close>\<close>
  | MustContainIntegers int  \<comment> \<open>\<^verbatim>\<open>Line %d must contain a list of ... integers.\<close>\<close>
  | DuplicateModule string  \<comment> \<open>\<^verbatim>\<open>Duplicate module name "%s"\<close>\<close>
  | ModuleNotFound int string  \<comment> \<open>\<^verbatim>\<open>3D map (line %d): couldn't find module "%s"\<close>\<close>
  | ParametersBeforeModule int
      \<comment> \<open>\<^verbatim>\<open>3D map (line %d): cannot specify parameters before module name\<close>\<close>
  | UnknownKey int string  \<comment> \<open>\<^verbatim>\<open>3D map (line %d): unknown key "%s"\<close>\<close>

subsection \<open>Python string operations\<close>

abbreviation dquote :: char where
  "dquote \<equiv> CHR 0x22"

abbreviation tab :: char where
  "tab \<equiv> CHR 0x09"

text \<open>
  The characters that \<^verbatim>\<open>str.strip\<close>, \<^verbatim>\<open>str.lstrip\<close>, \<^verbatim>\<open>str.rstrip\<close> and
  \<^verbatim>\<open>str.split\<close> of Python 3 treat as whitespace, within ASCII: codes 9 to 13 and 28
  to 32. A \<open>char\<close> is a byte, so the model is about ASCII input.
\<close>

definition is_space :: "char \<Rightarrow> bool" where
  "is_space c = (let n = (of_char c :: nat) in (9 \<le> n \<and> n \<le> 13) \<or> (28 \<le> n \<and> n \<le> 32))"

definition lstrip :: "string \<Rightarrow> string" where
  "lstrip s = dropWhile is_space s"

definition rstrip :: "string \<Rightarrow> string" where
  "rstrip s = rev (dropWhile is_space (rev s))"

definition strip :: "string \<Rightarrow> string" where
  "strip s = lstrip (rstrip s)"

definition startswith :: "string \<Rightarrow> string \<Rightarrow> bool" where
  "startswith s p = (take (length p) s = p)"

definition endswith :: "string \<Rightarrow> string \<Rightarrow> bool" where
  "endswith s p = (length p \<le> length s \<and> drop (length s - length p) s = p)"

text \<open>\<^verbatim>\<open>head, delim, tail = s.partition (c)\<close>: the text before and after the first \<open>c\<close>.\<close>

definition partition_at :: "string \<Rightarrow> char \<Rightarrow> string \<times> string" where
  "partition_at s c = (takeWhile (\<lambda>x. x \<noteq> c) s, drop 1 (dropWhile (\<lambda>x. x \<noteq> c) s))"

text \<open>\<^verbatim>\<open>s.split ()\<close>: the maximal runs of non-whitespace characters.\<close>

fun split_from :: "string \<Rightarrow> string \<Rightarrow> string list" where
  "split_from cur [] = (if cur = [] then [] else [cur])"
| "split_from cur (c # cs) =
     (if is_space c then (if cur = [] then split_from [] cs else cur # split_from [] cs)
      else split_from (cur @ [c]) cs)"

definition split_ws :: "string \<Rightarrow> string list" where
  "split_ws s = split_from [] s"

text \<open>
  \<^verbatim>\<open>int (s)\<close> on ASCII text: optional surrounding whitespace, an optional sign and one
  or more decimal digits; \<open>None\<close> stands for \<^verbatim>\<open>ValueError\<close>.
\<close>

definition is_digit :: "char \<Rightarrow> bool" where
  "is_digit c = (let n = (of_char c :: nat) in 48 \<le> n \<and> n \<le> 57)"

definition digit_val :: "char \<Rightarrow> int" where
  "digit_val c = int (of_char c) - 48"

definition py_int :: "string \<Rightarrow> int option" where
  "py_int s =
     (case strip s of
        [] \<Rightarrow> None
      | c # r \<Rightarrow>
          (let body = (if c = CHR ''-'' \<or> c = CHR ''+'' then r else c # r)
           in if body \<noteq> [] \<and> list_all is_digit body
              then Some ((if c = CHR ''-'' then - 1 else 1) *
                         foldl (\<lambda>a d. 10 * a + digit_val d) 0 body)
              else None))"

text \<open>\<^verbatim>\<open>[int (i) for i in value.split ()]\<close>, \<open>None\<close> when some \<^verbatim>\<open>int (i)\<close> raises.\<close>

fun int_list :: "string list \<Rightarrow> int list option" where
  "int_list [] = Some []"
| "int_list (w # ws) =
     (case py_int w of
        None \<Rightarrow> None
      | Some n \<Rightarrow> (case int_list ws of None \<Rightarrow> None | Some ns \<Rightarrow> Some (n # ns)))"

subsection \<open>The string-record decoder\<close>

definition parse_string :: "string \<Rightarrow> error + (string \<times> nat)" where
  "parse_string s =
     (case s of
        [] \<Rightarrow> Inl IndexError
      | c # rest \<Rightarrow>
          if c \<noteq> dquote then
            (let string = fst (partition_at s CHR '' '')
             in Inr (strip string, length string + 1))
          else if dquote \<notin> set rest then Inr (rest, length s)
          else
            (let second_quote = length (takeWhile (\<lambda>x. x \<noteq> dquote) rest) + 1;
                 beyond = drop (second_quote + 1) s;
                 beyond_stripped = lstrip beyond;
                 extra_garbage = length beyond - length beyond_stripped
             in Inr (take (second_quote - 1) rest, second_quote + 1 + extra_garbage)))"

subsection \<open>The line reader\<close>

text \<open>
  \<open>File\<close> holds the lines not yet consumed, the current line first. (The source keeps
  the list reversed and pops from its end; \<^verbatim>\<open>self.File[-1]\<close> is \<open>hd (File f)\<close>.)
\<close>

record FreePCBfile =
  File :: "string list"
  Lineno :: int

text \<open>The argument is what \<^verbatim>\<open>f.readlines ()\<close> returns.\<close>

definition FreePCBfile_init :: "string list \<Rightarrow> FreePCBfile" where
  "FreePCBfile_init ls = \<lparr>File = map rstrip ls, Lineno = 1\<rparr>"

text \<open>
  \<^verbatim>\<open>while self.File and not self.File[-1].strip (): self.File.pop (); self.Lineno += 1\<close>
\<close>

fun gobble :: "string list \<Rightarrow> int \<Rightarrow> string list \<times> int" where
  "gobble [] n = ([], n)"
| "gobble (l # ls) n = (if strip l = [] then gobble ls (n + 1) else (l # ls, n))"

definition skip_blank :: "FreePCBfile \<Rightarrow> FreePCBfile" where
  "skip_blank f = (case gobble (File f) (Lineno f) of (ls, n) \<Rightarrow> \<lparr>File = ls, Lineno = n\<rparr>)"

definition get_string :: "FreePCBfile \<Rightarrow> bool \<Rightarrow> error + (string \<times> string \<times> FreePCBfile)" where
  "get_string f allow_blank =
     (let f1 = skip_blank f in
      case File f1 of
        [] \<Rightarrow> Inl AssertionError
      | line # rest \<Rightarrow>
          (let f2 = \<lparr>File = rest, Lineno = Lineno f1 + 1\<rparr>;
               key = strip (fst (partition_at line CHR '':''));
               value = strip (snd (partition_at line CHR '':''))
           in case (if startswith value [dquote] \<and> endswith value [dquote]
                    then map_sum id fst (parse_string value) else Inr value) of
                Inl e \<Rightarrow> Inl e
              | Inr value' \<Rightarrow>
                  if value' = [] then Inl (ExpectedValue (Lineno f2 - 1))
                  else Inr (key, value', f2)))"

fun halfindents :: "string \<Rightarrow> nat" where
  "halfindents [] = 0"
| "halfindents (c # cs) =
     (if c = tab then 2 + halfindents cs
      else if c = CHR '' '' then 1 + halfindents cs
      else 0)"

definition indent_level :: "FreePCBfile \<Rightarrow> error + nat" where
  "indent_level f =
     (case File f of [] \<Rightarrow> Inl IndexError | line # rest \<Rightarrow> Inr (halfindents line div 2))"

definition at_end :: "FreePCBfile \<Rightarrow> bool \<times> FreePCBfile" where
  "at_end f = (let f1 = skip_blank f in (File f1 = [], f1))"

definition peek_key :: "FreePCBfile \<Rightarrow> error + string" where
  "peek_key f =
     (case File f of
        [] \<Rightarrow> Inl AssertionError
      | line # rest \<Rightarrow> Inr (strip (fst (partition_at line CHR '':''))))"

subsection \<open>The geometric model\<close>

record Pad =
  Shape :: int
  Width :: int
  Len1 :: int
  Len2 :: int
  CornRad :: int

text \<open>
  \<open>Coords\<close> is the slice \<^verbatim>\<open>value[1:3]\<close> of a list of four integers, hence a pair.
  The pin's \<^verbatim>\<open>Name\<close> is \<open>PinName\<close> here.
\<close>

record Pin =
  ModName :: string
  PinName :: string
  DrillDiam :: int
  Coords :: "int \<times> int"
  Angle :: int
  TopPad :: "Pad option"
  InnerPad :: "Pad option"
  BottomPad :: "Pad option"

text \<open>
  A point holds integers when it was read from a file and floats when it belongs to
  a courtyard; both are \<open>real\<close> here.
\<close>

record Polyline =
  Points :: "(real \<times> real) list"
  Linewidth :: "real option"
  Closed :: bool
  Layer :: string
  KicadLinewidth :: real

datatype GraphicElement = GPolyline Polyline | GPin Pin

record PCBmodule =
  ThreeDName :: "string option"
  ThreeDScale :: "real list"
  ThreeDOffset :: "real list"
  ThreeDRot :: "real list"
  Name :: string
  Author :: string
  Source :: string
  Description :: string
  Units :: "string option"
  SelectionRect :: "string option"
  RefText :: "string option"
  ValText :: string
  Centroid :: string
  Graphics :: "GraphicElement list"
  tedit :: real

text \<open>A library's \<^verbatim>\<open>opts\<close> attribute is stored and never read; it is left out.\<close>

record Library =
  Modules :: "PCBmodule list"

text \<open>
  The options of a run. A compiled regular expression is the predicate
  \<^verbatim>\<open>regex.match (name)\<close> it decides; the 3D map is the lines of its file.
\<close>

record Options =
  roundedpads :: "string option"
  rpexceptions :: "(string \<Rightarrow> bool) list"
  rcexceptions :: "(string \<Rightarrow> bool) list"
  opt_strip_lmn :: bool
  threedmap :: "string list option"
  courtyard :: "real option"
  hashtime :: bool
  outdir :: string

subsection \<open>Merging libraries and normalising names\<close>

text \<open>
  The scan of \<^verbatim>\<open>Library.__iadd__\<close>: the outer loop runs over the modules of
  \<^verbatim>\<open>self\<close>, the inner one over those of \<^verbatim>\<open>other\<close>; the result is the name raised.
\<close>

fun duplicate_scan :: "PCBmodule list \<Rightarrow> PCBmodule list \<Rightarrow> string option" where
  "duplicate_scan [] other = None"
| "duplicate_scan (i # rest) other =
     (case find (\<lambda>j. Name i = Name j) other of
        Some j \<Rightarrow> Some (Name i)
      | None \<Rightarrow> duplicate_scan rest other)"

definition Library_iadd :: "Library \<Rightarrow> Library \<Rightarrow> error + Library" where
  "Library_iadd self other =
     (case duplicate_scan (Modules self) (Modules other) of
        Some n \<Rightarrow> Inl (DuplicateModule n)
      | None \<Rightarrow> Inr (self\<lparr>Modules := Modules self @ Modules other\<rparr>))"

text \<open>\<^verbatim>\<open>self.Name[-1]\<close> raises on the empty name.\<close>

definition strip_lmn :: "PCBmodule \<Rightarrow> error + PCBmodule" where
  "strip_lmn m =
     (if Name m = [] then Inl IndexError
      else if last (Name m) \<in> set ''LMNlmn'' then Inr (m\<lparr>Name := butlast (Name m)\<rparr>)
      else Inr m)"

subsection \<open>What the reader consumes\<close>

lemma gobble_fst: "fst (gobble ls n) = dropWhile (\<lambda>l. strip l = []) ls"
  by (induction ls arbitrary: n) auto

lemma File_skip_blank: "File (skip_blank f) = dropWhile (\<lambda>l. strip l = []) (File f)"
  by (simp add: skip_blank_def split_beta gobble_fst)

lemma skip_blank_suffix: "suffix (File (skip_blank f)) (File f)"
  by (simp add: File_skip_blank suffix_dropWhile)

lemma get_string_File:
  assumes "get_string f b = Inr (k, v, f')"
  shows "File (skip_blank f) = hd (File (skip_blank f)) # File f'"
  using assms
  by (auto simp: get_string_def Let_def split: list.splits sum.splits if_splits)

lemma get_string_suffix:
  assumes "get_string f b = Inr (k, v, f')"
  shows "strict_suffix (File f') (File f)"
proof -
  have "suffix (hd (File (skip_blank f)) # File f') (File f)"
    using get_string_File [OF assms] skip_blank_suffix [of f] by simp
  then show ?thesis
    by (metis suffix_ConsD' )
qed

lemma get_string_length:
  assumes "get_string f b = Inr (k, v, f')"
  shows "length (File f') < length (File f)"
proof -
  have "length (File (skip_blank f)) \<le> length (File f)"
    by (rule suffix_length_le [OF skip_blank_suffix])
  moreover have "length (File (skip_blank f)) = Suc (length (File f'))"
    using get_string_File [OF assms] by (metis length_Cons)
  ultimately show ?thesis by simp
qed

subsection \<open>Parsing polylines, pads and pins\<close>

text \<open>
  The parser never reads the options: the source only stores \<^verbatim>\<open>opts\<close> in each
  object for the emitter, which takes them as an argument here.
\<close>

definition Polyline_new :: Polyline where
  "Polyline_new =
     \<lparr>Points = [], Linewidth = None, Closed = False, Layer = ''F.SilkS'',
      KicadLinewidth = 0.15\<rparr>"

text \<open>
  \<^verbatim>\<open>[int (i) for i in value.split ()]\<close> with its two checks; \<open>ok\<close> is the test on the
  number of integers, \<open>f\<close> the reader after the record was consumed.
\<close>

definition integers :: "(nat \<Rightarrow> bool) \<Rightarrow> string \<Rightarrow> FreePCBfile \<Rightarrow> error + int list" where
  "integers ok value f =
     (case int_list (split_ws value) of
        None \<Rightarrow> Inl (MustContainIntegers (Lineno f - 1))
      | Some v \<Rightarrow> if \<not> ok (length v) then Inl (MustContainIntegers (Lineno f - 1)) else Inr v)"

function next_corners ::
  "FreePCBfile \<Rightarrow> (real \<times> real) list \<Rightarrow> error + ((real \<times> real) list \<times> FreePCBfile)" where
  "next_corners f pts =
     (case peek_key f of
        Inl e \<Rightarrow> Inl e
      | Inr k \<Rightarrow>
          if k \<noteq> ''next_corner'' then Inr (pts, f)
          else
            (case get_string f False of
               Inl e \<Rightarrow> Inl e
             | Inr (key, value, f') \<Rightarrow>
                 if key \<noteq> ''next_corner'' then Inl AssertionError
                 else
                   (case integers (\<lambda>n. n = 3) value f' of
                      Inl e \<Rightarrow> Inl e
                    | Inr v \<Rightarrow> next_corners f' (pts @ [(of_int (v ! 0), of_int (v ! 1))]))))"
  by pat_completeness auto
termination
  by (relation "measure (\<lambda>(f, pts). length (File f))") (auto dest: get_string_length)

declare next_corners.simps [simp del]

definition Polyline_create_from_freepcb :: "FreePCBfile \<Rightarrow> error + (Polyline \<times> FreePCBfile)" where
  "Polyline_create_from_freepcb f =
     (case get_string f False of
        Inl e \<Rightarrow> Inl e
      | Inr (key, value, f1) \<Rightarrow>
          if key \<noteq> ''outline_polyline'' then Inl AssertionError
          else
            (case integers (\<lambda>n. n = 3) value f1 of
               Inl e \<Rightarrow> Inl e
             | Inr v \<Rightarrow>
                 (case next_corners f1 [(of_int (v ! 1), of_int (v ! 2))] of
                    Inl e \<Rightarrow> Inl e
                  | Inr (pts, f2) \<Rightarrow>
                      (case peek_key f2 of
                         Inl e \<Rightarrow> Inl e
                       | Inr k \<Rightarrow>
                           if k = ''close_polyline'' then
                             (case get_string f2 False of
                                Inl e \<Rightarrow> Inl e
                              | Inr (key', value', f3) \<Rightarrow>
                                  Inr (Polyline_new
                                         \<lparr>Points := pts @ [hd pts], Linewidth := Some 0.15,
                                          Closed := True\<rparr>, f3))
                           else
                             Inr (Polyline_new\<lparr>Points := pts, Linewidth := Some 0.15\<rparr>, f2)))))"

definition Pad_init :: "string \<Rightarrow> FreePCBfile \<Rightarrow> error + Pad" where
  "Pad_init value f =
     (case integers (\<lambda>n. n = 5 \<or> n = 4) value f of
        Inl e \<Rightarrow> Inl e
      | Inr v0 \<Rightarrow>
          (let v = (if length v0 = 4 then v0 @ [0] else v0)
           in Inr \<lparr>Shape = v ! 0, Width = v ! 1, Len1 = v ! 2, Len2 = v ! 3, CornRad = v ! 4\<rparr>))"

definition Pin_new :: "string \<Rightarrow> Pin" where
  "Pin_new modname =
     \<lparr>ModName = modname, PinName = [], DrillDiam = 0, Coords = (0, 0), Angle = 0,
      TopPad = None, InnerPad = None, BottomPad = None\<rparr>"

function pin_pads :: "FreePCBfile \<Rightarrow> Pin \<Rightarrow> error + (Pin \<times> FreePCBfile)" where
  "pin_pads f p =
     (case peek_key f of
        Inl e \<Rightarrow> Inl e
      | Inr k \<Rightarrow>
          if \<not> endswith k ''_pad'' then Inr (p, f)
          else
            (case get_string f False of
               Inl e \<Rightarrow> Inl e
             | Inr (key, value, f') \<Rightarrow>
                 if key = ''top_pad'' then
                   (case Pad_init value f' of
                      Inl e \<Rightarrow> Inl e
                    | Inr pd \<Rightarrow> pin_pads f' (p\<lparr>TopPad := Some pd\<rparr>))
                 else if key = ''inner_pad'' then
                   (case Pad_init value f' of
                      Inl e \<Rightarrow> Inl e
                    | Inr pd \<Rightarrow> pin_pads f' (p\<lparr>InnerPad := Some pd\<rparr>))
                 else if key = ''bottom_pad'' then
                   (case Pad_init value f' of
                      Inl e \<Rightarrow> Inl e
                    | Inr pd \<Rightarrow> pin_pads f' (p\<lparr>BottomPad := Some pd\<rparr>))
                 else Inl (UnexpectedKey key (Lineno f' - 1))))"
  by pat_completeness auto
termination
  by (relation "measure (\<lambda>(f, p). length (File f))") (auto dest: get_string_length)

declare pin_pads.simps [simp del]

definition Pin_create_from_freepcb :: "string \<Rightarrow> FreePCBfile \<Rightarrow> error + (Pin \<times> FreePCBfile)" where
  "Pin_create_from_freepcb modname f =
     (case get_string f False of
        Inl e \<Rightarrow> Inl e
      | Inr (key, value, f1) \<Rightarrow>
          if key \<noteq> ''pin'' then Inl AssertionError
          else
            (case parse_string value of
               Inl e \<Rightarrow> Inl e
             | Inr (name, len) \<Rightarrow>
                 (case integers (\<lambda>n. n = 4) (drop len value) f1 of
                    Inl e \<Rightarrow> Inl e
                  | Inr v \<Rightarrow>
                      pin_pads f1
                        ((Pin_new modname)
                           \<lparr>PinName := name, DrillDiam := v ! 0, Coords := (v ! 1, v ! 2),
                            Angle := v ! 3\<rparr>))))"

lemma suffix_strict_trans: "suffix xs ys \<Longrightarrow> strict_suffix ys zs \<Longrightarrow> strict_suffix xs zs"
  by (metis strict_suffix_def suffix_order.trans suffix_order.antisym)

lemma strict_suffix_length: "strict_suffix xs ys \<Longrightarrow> length xs < length ys"
  by (auto simp: strict_suffix_def suffix_def)

lemma next_corners_suffix:
  "next_corners f pts = Inr (pts', f') \<Longrightarrow> suffix (File f') (File f)"
proof (induction f pts rule: next_corners.induct)
  case (1 f pts)
  show ?case
  proof (cases "peek_key f = Inr ''next_corner''")
    case False
    with "1.prems" show ?thesis
      by (subst (asm) next_corners.simps) (auto split: sum.splits if_splits)
  next
    case True
    with "1.prems" obtain key val f1 v where
      g: "get_string f False = Inr (key, val, f1)" and k: "key = ''next_corner''" and
      i: "integers (\<lambda>n. n = 3) val f1 = Inr v" and
      r: "next_corners f1 (pts @ [(of_int (v ! 0), of_int (v ! 1))]) = Inr (pts', f')"
      by (subst (asm) next_corners.simps) (auto split: sum.splits if_splits)
    have "suffix (File f') (File f1)"
      by (rule "1.IH" [OF True _ g refl refl _ i r]) (simp_all add: k)
    moreover have "suffix (File f1) (File f)"
      using get_string_suffix [OF g] by (simp add: strict_suffix_def)
    ultimately show ?thesis by (rule suffix_order.trans)
  qed
qed


lemma Polyline_create_suffix:
  assumes "Polyline_create_from_freepcb f = Inr (pl, f')"
  shows "strict_suffix (File f') (File f)"
proof -
  from assms obtain key val f1 v pts f2 where
    g: "get_string f False = Inr (key, val, f1)" and
    n: "next_corners f1 [(of_int (v ! 1), of_int (v ! 2))] = Inr (pts, f2)" and
    c: "f' = f2 \<or> (\<exists>k' v'. get_string f2 False = Inr (k', v', f'))"
    unfolding Polyline_create_from_freepcb_def
    by (auto split: sum.splits if_splits)
  have a: "strict_suffix (File f1) (File f)" by (rule get_string_suffix [OF g])
  have b: "suffix (File f2) (File f1)" by (rule next_corners_suffix [OF n])
  have "suffix (File f') (File f2)"
    using c get_string_suffix by (auto simp: strict_suffix_def)
  then have "suffix (File f') (File f1)" using b by (rule suffix_order.trans)
  then show ?thesis using a by (rule suffix_strict_trans)
qed

lemma pin_pads_suffix:
  "pin_pads f p = Inr (p', f') \<Longrightarrow> suffix (File f') (File f)"
proof (induction f p rule: pin_pads.induct)
  case (1 f p)
  show ?case
  proof (cases "\<exists>k. peek_key f = Inr k \<and> endswith k ''_pad''")
    case False
    with "1.prems" show ?thesis
      by (subst (asm) pin_pads.simps) (auto split: sum.splits if_splits)
  next
    case True
    then obtain k where pk: "peek_key f = Inr k" and ek: "endswith k ''_pad''" by blast
    from "1.prems" pk ek obtain key val f1 where
      g: "get_string f False = Inr (key, val, f1)"
      by (subst (asm) pin_pads.simps) (auto split: sum.splits if_splits)
    from "1.prems" pk ek g obtain pd where pd: "Pad_init val f1 = Inr pd"
      by (subst (asm) pin_pads.simps) (auto split: sum.splits if_splits)
    have f1: "suffix (File f1) (File f)"
      using get_string_suffix [OF g] by (simp add: strict_suffix_def)
    have "suffix (File f') (File f1)"
    proof (cases "key = ''top_pad''")
      case True
      from "1.prems" pk ek g pd True have r: "pin_pads f1 (p\<lparr>TopPad := Some pd\<rparr>) = Inr (p', f')"
        by (subst (asm) pin_pads.simps) simp
      show ?thesis
        by (rule "1.IH"(1) [OF pk _ g refl refl True pd r]) (simp add: ek)
    next
      case nt: False
      show ?thesis
      proof (cases "key = ''inner_pad''")
        case True
        from "1.prems" pk ek g pd nt True
        have r: "pin_pads f1 (p\<lparr>InnerPad := Some pd\<rparr>) = Inr (p', f')"
          by (subst (asm) pin_pads.simps) simp
        show ?thesis
          by (rule "1.IH"(2) [OF pk _ g refl refl nt True pd r]) (simp add: ek)
      next
        case ni: False
        from "1.prems" pk ek g pd nt ni
        have kb: "key = ''bottom_pad''"
          by (subst (asm) pin_pads.simps) (simp split: if_splits)
        from "1.prems" pk ek g pd nt ni kb
        have r: "pin_pads f1 (p\<lparr>BottomPad := Some pd\<rparr>) = Inr (p', f')"
          by (subst (asm) pin_pads.simps) simp
        show ?thesis
          by (rule "1.IH"(3) [OF pk _ g refl refl nt ni kb pd r]) (simp add: ek)
      qed
    qed
    then show ?thesis using f1 by (rule suffix_order.trans)
  qed
qed

lemma Pin_create_suffix:
  assumes "Pin_create_from_freepcb modname f = Inr (p, f')"
  shows "strict_suffix (File f') (File f)"
proof -
  from assms obtain key val f1 p1 where
    g: "get_string f False = Inr (key, val, f1)" and
    n: "pin_pads f1 p1 = Inr (p, f')"
    unfolding Pin_create_from_freepcb_def
    by (auto split: sum.splits if_splits)
  have a: "strict_suffix (File f1) (File f)" by (rule get_string_suffix [OF g])
  have b: "suffix (File f') (File f1)" by (rule pin_pads_suffix [OF n])
  show ?thesis using b a by (rule suffix_strict_trans)
qed

subsection \<open>Parsing modules and libraries\<close>

lemma at_end_simps [simp]:
  "fst (at_end f) = (File (skip_blank f) = [])" "snd (at_end f) = skip_blank f"
  by (simp_all add: at_end_def Let_def)

lemma skip_blank_length: "length (File (skip_blank f)) \<le> length (File f)"
  by (rule suffix_length_le [OF skip_blank_suffix])

definition PCBmodule_new :: PCBmodule where
  "PCBmodule_new =
     \<lparr>ThreeDName = None, ThreeDScale = [1, 1, 1], ThreeDOffset = [0, 0, 0],
      ThreeDRot = [0, 0, 0], Name = [], Author = [], Source = [], Description = [],
      Units = None, SelectionRect = None, RefText = None, ValText = [],
      Centroid = ''0 0 0 0'', Graphics = [], tedit = 0\<rparr>"

text \<open>The body of the first loop of \<^verbatim>\<open>PCBmodule.__init__\<close>: one header record.\<close>

definition header_record :: "FreePCBfile \<Rightarrow> PCBmodule \<Rightarrow> error + (PCBmodule \<times> FreePCBfile)" where
  "header_record f m =
     (case get_string f False of
        Inl e \<Rightarrow> Inl e
      | Inr (key, value, f') \<Rightarrow>
          if key = ''name'' then Inr (m\<lparr>Name := value\<rparr>, f')
          else if key = ''author'' then Inr (m\<lparr>Author := value\<rparr>, f')
          else if key = ''source'' then Inr (m\<lparr>Source := value\<rparr>, f')
          else if key = ''description'' then Inr (m\<lparr>Description := value\<rparr>, f')
          else Inl (UnexpectedKey key (Lineno f' - 1)))"

lemma header_record_suffix:
  "header_record f m = Inr (m', f') \<Longrightarrow> strict_suffix (File f') (File f)"
  by (auto simp: header_record_def split: sum.splits if_splits dest: get_string_suffix)

lemma header_record_length:
  assumes "header_record (skip_blank f) m = Inr (m', f')"
  shows "length (File f') < length (File f)"
  using strict_suffix_length [OF header_record_suffix [OF assms]] skip_blank_length [of f]
  by simp

text \<open>
  \<^verbatim>\<open>while not file_in.indent_level () and not file_in.at_end (): ...\<close>:
  \<^verbatim>\<open>indent_level\<close> is evaluated first, \<^verbatim>\<open>at_end\<close> only when the level is 0.
\<close>

function header_loop :: "FreePCBfile \<Rightarrow> PCBmodule \<Rightarrow> error + (PCBmodule \<times> FreePCBfile)" where
  "header_loop f m =
     (case indent_level f of
        Inl e \<Rightarrow> Inl e
      | Inr lvl \<Rightarrow>
          if lvl \<noteq> 0 then Inr (m, f)
          else if fst (at_end f) then Inr (m, snd (at_end f))
          else
            (case header_record (snd (at_end f)) m of
               Inl e \<Rightarrow> Inl e
             | Inr (m', f') \<Rightarrow> header_loop f' m'))"
  by pat_completeness auto
termination
  by (relation "measure (\<lambda>(f, m). length (File f))") (auto dest: header_record_length)

declare header_loop.simps [simp del]

text \<open>The body of the second loop: one body record, chosen by the key of the current line.\<close>

definition body_record :: "FreePCBfile \<Rightarrow> PCBmodule \<Rightarrow> error + (PCBmodule \<times> FreePCBfile)" where
  "body_record f m =
     (case peek_key f of
        Inl e \<Rightarrow> Inl e
      | Inr key \<Rightarrow>
          if key = ''units'' then
            (case get_string f False of
               Inl e \<Rightarrow> Inl e
             | Inr (key', value, f') \<Rightarrow> Inr (m\<lparr>Units := Some value\<rparr>, f'))
          else if key = ''sel_rect'' then
            (case get_string f False of
               Inl e \<Rightarrow> Inl e
             | Inr (key', value, f') \<Rightarrow> Inr (m\<lparr>SelectionRect := Some value\<rparr>, f'))
          else if key = ''ref_text'' then
            (case get_string f False of
               Inl e \<Rightarrow> Inl e
             | Inr (key', value, f') \<Rightarrow> Inr (m\<lparr>RefText := Some value\<rparr>, f'))
          else if key = ''value_text'' then
            (case get_string f False of
               Inl e \<Rightarrow> Inl e
             | Inr (key', value, f') \<Rightarrow> Inr (m\<lparr>ValText := value\<rparr>, f'))
          else if key = ''centroid'' then
            (case get_string f False of
               Inl e \<Rightarrow> Inl e
             | Inr (key', value, f') \<Rightarrow> Inr (m\<lparr>Centroid := value\<rparr>, f'))
          else if key = ''outline_polyline'' then
            (case Polyline_create_from_freepcb f of
               Inl e \<Rightarrow> Inl e
             | Inr (pl, f') \<Rightarrow> Inr (m\<lparr>Graphics := Graphics m @ [GPolyline pl]\<rparr>, f'))
          else if key = ''n_pins'' then
            (case get_string f True of
               Inl e \<Rightarrow> Inl e
             | Inr (key', value, f') \<Rightarrow> Inr (m, f'))
          else if key = ''pin'' then
            (case Pin_create_from_freepcb (Name m) f of
               Inl e \<Rightarrow> Inl e
             | Inr (p, f') \<Rightarrow> Inr (m\<lparr>Graphics := Graphics m @ [GPin p]\<rparr>, f'))
          else Inl (UnexpectedKey key (Lineno f - 1)))"

lemma body_record_suffix:
  "body_record f m = Inr (m', f') \<Longrightarrow> strict_suffix (File f') (File f)"
  unfolding body_record_def
  by (auto split: sum.splits if_splits
      dest: get_string_suffix Polyline_create_suffix Pin_create_suffix)

lemma body_record_length:
  assumes "body_record (skip_blank f) m = Inr (m', f')"
  shows "length (File f') < length (File f)"
  using strict_suffix_length [OF body_record_suffix [OF assms]] skip_blank_length [of f]
  by simp

function body_loop :: "FreePCBfile \<Rightarrow> PCBmodule \<Rightarrow> error + (PCBmodule \<times> FreePCBfile)" where
  "body_loop f m =
     (case indent_level f of
        Inl e \<Rightarrow> Inl e
      | Inr lvl \<Rightarrow>
          if lvl = 0 then Inr (m, f)
          else if fst (at_end f) then Inr (m, snd (at_end f))
          else
            (case body_record (snd (at_end f)) m of
               Inl e \<Rightarrow> Inl e
             | Inr (m', f') \<Rightarrow> body_loop f' m'))"
  by pat_completeness auto
termination
  by (relation "measure (\<lambda>(f, m). length (File f))") (auto dest: body_record_length)

declare body_loop.simps [simp del]

text \<open>
  \<^verbatim>\<open>PCBmodule.__init__\<close>; \<open>now\<close> is what \<^verbatim>\<open>time.time ()\<close> returns at its end.
\<close>

definition PCBmodule_init :: "FreePCBfile \<Rightarrow> real \<Rightarrow> error + (PCBmodule \<times> FreePCBfile)" where
  "PCBmodule_init f now =
     (case header_loop f PCBmodule_new of
        Inl e \<Rightarrow> Inl e
      | Inr (m1, f1) \<Rightarrow>
          if Name m1 = [] then Inl AssertionError
          else if Author m1 = [] then Inl AssertionError
          else if Source m1 = [] then Inl AssertionError
          else
            (case body_loop f1 m1 of
               Inl e \<Rightarrow> Inl e
             | Inr (m2, f2) \<Rightarrow>
                 if Units m2 \<noteq> Some ''NM'' then Inl AssertionError
                 else if SelectionRect m2 = None \<or> SelectionRect m2 = Some [] then
                   Inl AssertionError
                 else if RefText m2 = None \<or> RefText m2 = Some [] then Inl AssertionError
                 else if Centroid m2 \<noteq> ''0 0 0 0'' then Inl AssertionError
                 else Inr (m2\<lparr>tedit := now\<rparr>, f2)))"

lemma indent_level_Inr: "indent_level f = Inr lvl \<Longrightarrow> File f \<noteq> []"
  by (auto simp: indent_level_def split: list.splits)

lemma header_loop_suffix:
  "header_loop f m = Inr (m', f') \<Longrightarrow>
     suffix (File f') (File f) \<and> (File f' = File f \<longrightarrow> m' = m)"
proof (induction f m rule: header_loop.induct)
  case (1 f m)
  from "1.prems" obtain lvl where lvl: "indent_level f = Inr lvl"
    by (subst (asm) header_loop.simps) (auto split: sum.splits)
  have ne: "File f \<noteq> []" by (rule indent_level_Inr [OF lvl])
  show ?case
  proof (cases "lvl \<noteq> 0 \<or> fst (at_end f)")
    case True
    with "1.prems" lvl ne show ?thesis
      by (subst (asm) header_loop.simps) (auto split: if_splits simp: skip_blank_suffix)
  next
    case False
    with "1.prems" lvl obtain m1 f1 where
      h: "header_record (snd (at_end f)) m = Inr (m1, f1)" and
      r: "header_loop f1 m1 = Inr (m', f')"
      by (subst (asm) header_loop.simps) (auto split: sum.splits if_splits)
    from False have l0: "\<not> lvl \<noteq> 0" and ae: "\<not> fst (at_end f)" by simp_all
    have "suffix (File f') (File f1)"
      using "1.IH" [OF lvl l0 ae h refl r] by simp
    moreover have "strict_suffix (File f1) (File (skip_blank f))"
      using header_record_suffix [of "skip_blank f"] h by simp
    ultimately have "strict_suffix (File f') (File (skip_blank f))"
      by (rule suffix_strict_trans)
    then have "length (File f') < length (File f)"
      using strict_suffix_length skip_blank_length [of f] by fastforce
    moreover have "suffix (File f') (File f)"
      using \<open>strict_suffix (File f') (File (skip_blank f))\<close> skip_blank_suffix [of f]
      by (meson strict_suffix_def suffix_order.trans)
    ultimately show ?thesis by auto
  qed
qed

text \<open>Every line of a reader built by \<open>FreePCBfile_init\<close> has lost its trailing whitespace.\<close>

definition rstripped :: "FreePCBfile \<Rightarrow> bool" where
  "rstripped f = (\<forall>l \<in> set (File f). rstrip l = l)"

lemma body_loop_suffix:
  "body_loop f m = Inr (m', f') \<Longrightarrow> suffix (File f') (File f)"
proof (induction f m rule: body_loop.induct)
  case (1 f m)
  from "1.prems" obtain lvl where lvl: "indent_level f = Inr lvl"
    by (subst (asm) body_loop.simps) (auto split: sum.splits)
  show ?case
  proof (cases "lvl = 0 \<or> fst (at_end f)")
    case True
    with "1.prems" lvl show ?thesis
      by (subst (asm) body_loop.simps) (auto split: if_splits simp: skip_blank_suffix)
  next
    case False
    with "1.prems" lvl obtain m1 f1 where
      h: "body_record (snd (at_end f)) m = Inr (m1, f1)" and
      r: "body_loop f1 m1 = Inr (m', f')"
      by (subst (asm) body_loop.simps) (auto split: sum.splits if_splits)
    from False have l0: "\<not> lvl = 0" and ae: "\<not> fst (at_end f)" by simp_all
    have "suffix (File f') (File f1)"
      using "1.IH" [OF lvl l0 ae h refl r] by simp
    moreover have "suffix (File f1) (File (skip_blank f))"
      using body_record_suffix [of "skip_blank f"] h by (simp add: strict_suffix_def)
    ultimately show ?thesis
      using skip_blank_suffix [of f] by (meson suffix_order.trans)
  qed
qed

lemma PCBmodule_init_suffix:
  assumes "PCBmodule_init f now = Inr (m, f')"
  shows "strict_suffix (File f') (File f)"
proof -
  from assms obtain m1 f1 m2 where
    h: "header_loop f PCBmodule_new = Inr (m1, f1)" and n: "Name m1 \<noteq> []" and
    b: "body_loop f1 m1 = Inr (m2, f')"
    unfolding PCBmodule_init_def by (auto split: sum.splits if_splits)
  have "m1 \<noteq> PCBmodule_new" using n by (auto simp: PCBmodule_new_def)
  with header_loop_suffix [OF h] have "strict_suffix (File f1) (File f)"
    by (auto simp: strict_suffix_def)
  with body_loop_suffix [OF b] show ?thesis by (rule suffix_strict_trans)
qed

lemma PCBmodule_init_length:
  assumes "PCBmodule_init (skip_blank f) now = Inr (m, f')"
  shows "length (File f') < length (File f)"
  using strict_suffix_length [OF PCBmodule_init_suffix [OF assms]] skip_blank_length [of f]
  by simp

text \<open>
  \<^verbatim>\<open>Library.__init__\<close> with a reader: \<^verbatim>\<open>while not file_in.at_end (): ...\<close>.
  \<open>clock k\<close> is the reading of \<^verbatim>\<open>time.time ()\<close> at the end of the \<open>k\<close>-th module.
\<close>

function library_loop ::
  "(nat \<Rightarrow> real) \<Rightarrow> FreePCBfile \<Rightarrow> PCBmodule list \<Rightarrow> error + (PCBmodule list \<times> FreePCBfile)" where
  "library_loop clock f acc =
     (if fst (at_end f) then Inr (acc, snd (at_end f))
      else
        (case PCBmodule_init (snd (at_end f)) (clock (length acc)) of
           Inl e \<Rightarrow> Inl e
         | Inr (m, f') \<Rightarrow> library_loop clock f' (acc @ [m])))"
  by pat_completeness auto
termination
  by (relation "measure (\<lambda>(clock, f, acc). length (File f))")
    (auto dest: PCBmodule_init_length)

declare library_loop.simps [simp del]

definition Library_init :: "FreePCBfile \<Rightarrow> (nat \<Rightarrow> real) \<Rightarrow> error + Library" where
  "Library_init f clock =
     (case library_loop clock f [] of
        Inl e \<Rightarrow> Inl e
      | Inr (ms, f') \<Rightarrow> Inr \<lparr>Modules = ms\<rparr>)"

text \<open>\<^verbatim>\<open>Library ()\<close> without arguments.\<close>

definition Library_empty :: Library where
  "Library_empty = \<lparr>Modules = []\<rparr>"

subsection \<open>Python's library\<close>

text \<open>
  What the converter takes from Python's library, as parameters: the MD5 digest of a
  text (a list of bytes), \<^verbatim>\<open>"%08X" % n\<close>, \<^verbatim>\<open>str\<close> and \<^verbatim>\<open>repr\<close> of numbers and
  texts, the \<^verbatim>\<open>unicode_escape\<close> codec, \<^verbatim>\<open>float (s)\<close> (\<open>None\<close> for
  \<^verbatim>\<open>ValueError\<close>), and the rounding of a real to the nearest double, which is what
  \<^verbatim>\<open>float (n)\<close> of an integer and every float product and sum return.
\<close>

record python =
  md5 :: "string \<Rightarrow> 8 word list"
  format_08X :: "int \<Rightarrow> string"
  str_int :: "int \<Rightarrow> string"
  str_float :: "real \<Rightarrow> string"
  repr_float :: "real \<Rightarrow> string"
  repr_str :: "string \<Rightarrow> string"
  unicode_escape :: "string \<Rightarrow> string"
  float_of :: "string \<Rightarrow> real option"
  round_double :: "real \<Rightarrow> real"

subsection \<open>Units and bounding boxes\<close>

definition to_mm :: "real \<Rightarrow> real" where
  "to_mm n = n / 1000000"

text \<open>\<^verbatim>\<open>float (n) * 1000000.\<close>: the conversion, then the rounded product.\<close>

definition from_mm :: "python \<Rightarrow> real \<Rightarrow> real" where
  "from_mm py n = round_double py (round_double py n * 1000000)"

text \<open>\<^verbatim>\<open>min\<close> and \<^verbatim>\<open>max\<close> of a sequence; both raise on the empty one.\<close>

fun py_min :: "real list \<Rightarrow> error + real" where
  "py_min [] = Inl ValueError"
| "py_min (x # xs) = Inr (fold min xs x)"

fun py_max :: "real list \<Rightarrow> error + real" where
  "py_max [] = Inl ValueError"
| "py_max (x # xs) = Inr (fold max xs x)"

text \<open>A box is \<open>(left, right, top, bottom)\<close>; the variable \<^verbatim>\<open>top\<close> is \<open>top0\<close> here.\<close>

definition Polyline_bounding_box :: "Polyline \<Rightarrow> error + (real \<times> real \<times> real \<times> real)" where
  "Polyline_bounding_box pl =
     (case py_min (map fst (Points pl)) of
        Inl e \<Rightarrow> Inl e
      | Inr left \<Rightarrow>
          (case py_max (map fst (Points pl)) of
             Inl e \<Rightarrow> Inl e
           | Inr right \<Rightarrow>
               (case py_max (map snd (Points pl)) of
                  Inl e \<Rightarrow> Inl e
                | Inr top0 \<Rightarrow>
                    (case py_min (map snd (Points pl)) of
                       Inl e \<Rightarrow> Inl e
                     | Inr bottom \<Rightarrow> Inr (left, right, top0, bottom)))))"

text \<open>
  The lines that \<^verbatim>\<open>Pin.kicad_sexp\<close> (twice) and \<^verbatim>\<open>Pin.bounding_box\<close> share:
  \<^verbatim>\<open>sx, sy = self.TopPad.Width, self.TopPad.Len1 + self.TopPad.Len2\<close>, swapped when the
  angle is 90, with \<^verbatim>\<open>assert self.Angle == 0\<close> otherwise.
\<close>

definition pin_size :: "Pin \<Rightarrow> error + (int \<times> int)" where
  "pin_size p =
     (case TopPad p of
        None \<Rightarrow> Inl AttributeError
      | Some pd \<Rightarrow>
          (let sx = Width pd; sy = Len1 pd + Len2 pd
           in if Angle p = 90 then Inr (sy, sx)
              else if Angle p \<noteq> 0 then Inl AssertionError
              else Inr (sx, sy)))"

text \<open>\<^verbatim>\<open>sy / 2\<close> is Python 3's division: the half of an odd size is not rounded.\<close>

definition Pin_bounding_box :: "Pin \<Rightarrow> error + (real \<times> real \<times> real \<times> real)" where
  "Pin_bounding_box p =
     (case pin_size p of
        Inl e \<Rightarrow> Inl e
      | Inr (sx, sy) \<Rightarrow>
          (let left = of_int (fst (Coords p)) - of_int sy / 2;
               right = of_int (fst (Coords p)) + of_int sy / 2;
               top0 = of_int (snd (Coords p)) + of_int sx / 2;
               bottom = of_int (snd (Coords p)) - of_int sx / 2
           in Inr (left, right, top0, bottom)))"

fun sub_boxes :: "GraphicElement list \<Rightarrow> error + (real \<times> real \<times> real \<times> real) list" where
  "sub_boxes [] = Inr []"
| "sub_boxes (g # gs) =
     (case (case g of GPolyline pl \<Rightarrow> Polyline_bounding_box pl | GPin p \<Rightarrow> Pin_bounding_box p) of
        Inl e \<Rightarrow> Inl e
      | Inr b \<Rightarrow> (case sub_boxes gs of Inl e \<Rightarrow> Inl e | Inr bs \<Rightarrow> Inr (b # bs)))"

definition PCBmodule_bounding_box :: "PCBmodule \<Rightarrow> error + (real \<times> real \<times> real \<times> real)" where
  "PCBmodule_bounding_box m =
     (case sub_boxes (Graphics m) of
        Inl e \<Rightarrow> Inl e
      | Inr bs \<Rightarrow>
          (case py_min (map (\<lambda>(l, r, t, b). l) bs) of
             Inl e \<Rightarrow> Inl e
           | Inr left \<Rightarrow>
               (case py_max (map (\<lambda>(l, r, t, b). r) bs) of
                  Inl e \<Rightarrow> Inl e
                | Inr right \<Rightarrow>
                    (case py_max (map (\<lambda>(l, r, t, b). t) bs) of
                       Inl e \<Rightarrow> Inl e
                     | Inr top0 \<Rightarrow>
                         (case py_min (map (\<lambda>(l, r, t, b). b) bs) of
                            Inl e \<Rightarrow> Inl e
                          | Inr bottom \<Rightarrow> Inr (left, right, top0, bottom))))))"

subsection \<open>The courtyard pass\<close>

definition courtyard_polyline :: "real \<Rightarrow> real \<Rightarrow> real \<Rightarrow> real \<Rightarrow> Polyline" where
  "courtyard_polyline left right top0 bottom =
     Polyline_new
       \<lparr>Points := [(left, top0), (right, top0), (right, bottom), (left, bottom), (left, top0)],
        Layer := ''F.CrtYd'', KicadLinewidth := 0.05\<rparr>"

text \<open>
  \<^verbatim>\<open>left -= from_mm (spacing)\<close> and its three siblings: the side of the box (an
  integer, or a float when a pin set it) is converted to a double and the difference or
  sum is rounded. The new polyline keeps the default \<^verbatim>\<open>Closed = False\<close>: the pass sets
  only its points, line width and layer.
\<close>

definition add_courtyard :: "python \<Rightarrow> PCBmodule \<Rightarrow> real \<Rightarrow> error + PCBmodule" where
  "add_courtyard py m spacing =
     (case PCBmodule_bounding_box m of
        Inl e \<Rightarrow> Inl e
      | Inr (left, right, top0, bottom) \<Rightarrow>
          (let left' = round_double py (round_double py left - from_mm py spacing);
               right' = round_double py (round_double py right + from_mm py spacing);
               top1 = round_double py (round_double py top0 + from_mm py spacing);
               bottom' = round_double py (round_double py bottom - from_mm py spacing)
           in Inr (m\<lparr>Graphics :=
                       Graphics m @ [GPolyline (courtyard_polyline left' right' top1 bottom')]\<rparr>)))"

subsection \<open>The expression emitter\<close>

datatype sexp = Sym string | Str string | SInt int | SFlt real | Lst "sexp list"

fun fp_lines :: "Polyline \<Rightarrow> real \<times> real \<Rightarrow> (real \<times> real) list \<Rightarrow> sexp list" where
  "fp_lines pl last_corner [] = []"
| "fp_lines pl last_corner (i # rest) =
     Lst [Sym ''fp_line'',
          Lst [Sym ''start'', SFlt (to_mm (fst last_corner)), SFlt (to_mm (- snd last_corner))],
          Lst [Sym ''end'', SFlt (to_mm (fst i)), SFlt (to_mm (- snd i))],
          Lst [Sym ''layer'', Str (Layer pl)],
          Lst [Sym ''width'', SFlt (KicadLinewidth pl)]]
     # fp_lines pl i rest"

definition Polyline_kicad_sexp :: "Polyline \<Rightarrow> error + sexp list" where
  "Polyline_kicad_sexp pl =
     (case Points pl of
        [] \<Rightarrow> Inl IndexError
      | last_corner # rest \<Rightarrow> Inr (fp_lines pl last_corner rest))"

text \<open>
  \<^verbatim>\<open>can_round = True; for regex in exceptions: if regex.match (self.ModName): can_round = False\<close>
\<close>

definition can_round :: "(string \<Rightarrow> bool) list \<Rightarrow> string \<Rightarrow> bool" where
  "can_round exceptions modname =
     fold (\<lambda>regex can. if regex modname then False else can) exceptions True"

definition Pin_kicad_sexp :: "Options \<Rightarrow> Pin \<Rightarrow> error + sexp list" where
  "Pin_kicad_sexp opts p =
     (if DrillDiam p = 0 then
        (case pin_size p of
           Inl e \<Rightarrow> Inl e
         | Inr (sx, sy) \<Rightarrow>
             (let can_round_pads = can_round (rpexceptions opts) (ModName p);
                  can_round_center = can_round (rcexceptions opts) (ModName p)
              in case
                   (if roundedpads opts = None then Inr ''rect''
                    else if \<not> can_round_center \<and> (0, 0) = Coords p then Inr ''rect''
                    else if roundedpads opts = Some ''all'' then
                      Inr (if can_round_pads then ''oval'' else ''rect'')
                    else if roundedpads opts = Some ''allbut1'' then
                      (if can_round_pads
                       then Inr (if PinName p = ''1'' then ''rect'' else ''oval'')
                       else Inr ''rect'')
                    else Inl AssertionError) of
                   Inl e \<Rightarrow> Inl e
                 | Inr shape \<Rightarrow>
                     Inr [Lst [Sym ''pad'', Str (PinName p), Sym ''smd'', Sym shape,
                               Lst [Sym ''at'', SFlt (to_mm (of_int (fst (Coords p)))),
                                    SFlt (- to_mm (of_int (snd (Coords p))))],
                               Lst [Sym ''size'', SFlt (to_mm (of_int sy)), SFlt (to_mm (of_int sx))],
                               Lst [Sym ''layers'', Str ''F.Cu'', Str ''F.Paste'', Str ''F.Mask'']]]))
      else
        (case pin_size p of
           Inl e \<Rightarrow> Inl e
         | Inr (sx, sy) \<Rightarrow>
             (let shape = (if PinName p = ''1'' then ''rect'' else ''circle'')
              in Inr [Lst [Sym ''pad'', Str (PinName p), Sym ''thru_hole'', Sym shape,
                           Lst [Sym ''at'', SFlt (to_mm (of_int (fst (Coords p)))),
                                SFlt (- to_mm (of_int (snd (Coords p))))],
                           Lst [Sym ''size'', SFlt (to_mm (of_int sy)), SFlt (to_mm (of_int sx))],
                           Lst [Sym ''drill'', SFlt (to_mm (of_int (DrillDiam p)))],
                           Lst [Sym ''layers'', Str ''*.Cu'', Str ''*.Mask'']]])))"

text \<open>The two loops of \<^verbatim>\<open>PCBmodule.kicad_sexp\<close> over \<^verbatim>\<open>self.Graphics\<close>.\<close>

fun polylines_sexp :: "GraphicElement list \<Rightarrow> error + sexp list" where
  "polylines_sexp [] = Inr []"
| "polylines_sexp (GPin p # gs) = polylines_sexp gs"
| "polylines_sexp (GPolyline pl # gs) =
     (case Polyline_kicad_sexp pl of
        Inl e \<Rightarrow> Inl e
      | Inr xs \<Rightarrow> (case polylines_sexp gs of Inl e \<Rightarrow> Inl e | Inr ys \<Rightarrow> Inr (xs @ ys)))"

fun pins_sexp :: "Options \<Rightarrow> GraphicElement list \<Rightarrow> error + sexp list" where
  "pins_sexp opts [] = Inr []"
| "pins_sexp opts (GPolyline pl # gs) = pins_sexp opts gs"
| "pins_sexp opts (GPin p # gs) =
     (case Pin_kicad_sexp opts p of
        Inl e \<Rightarrow> Inl e
      | Inr xs \<Rightarrow> (case pins_sexp opts gs of Inl e \<Rightarrow> Inl e | Inr ys \<Rightarrow> Inr (xs @ ys)))"

text \<open>\<^verbatim>\<open>int (x)\<close> of a float: truncation towards zero.\<close>

definition py_trunc :: "real \<Rightarrow> int" where
  "py_trunc x = (if 0 \<le> x then \<lfloor>x\<rfloor> else \<lceil>x\<rceil>)"

definition PCBmodule_kicad_sexp :: "python \<Rightarrow> Options \<Rightarrow> PCBmodule \<Rightarrow> error + sexp" where
  "PCBmodule_kicad_sexp py opts m =
     (let header =
            [Sym ''module'', Str (Name m),
             Lst [Sym ''layer'', Str ''F.Cu''],
             Lst [Sym ''tedit'', Str (format_08X py (py_trunc (tedit m)))],
             Lst [Sym ''descr'', Str (Description m)],
             Lst [Sym ''attr'', Sym ''smd''],
             Lst [Sym ''fp_text'', Sym ''reference'', Str ''REF**'',
                  Lst [Sym ''at'', SInt 0, SInt 0],
                  Lst [Sym ''layer'', Str ''F.SilkS''],
                  Lst [Sym ''effects'',
                       Lst [Sym ''font'', Lst [Sym ''size'', SFlt 0.8, SFlt 0.8],
                            Lst [Sym ''thickness'', SFlt 0.15]]]],
             Lst [Sym ''fp_text'', Sym ''value'', Str (Name m),
                  Lst [Sym ''at'', SInt 0, SInt 0],
                  Lst [Sym ''layer'', Str ''F.Fab''],
                  Lst [Sym ''effects'',
                       Lst [Sym ''font'', Lst [Sym ''size'', SFlt 0.5, SFlt 0.5],
                            Lst [Sym ''thickness'', SFlt 0.1]]]]]
      in case polylines_sexp (Graphics m) of
           Inl e \<Rightarrow> Inl e
         | Inr lines \<Rightarrow>
             (case pins_sexp opts (Graphics m) of
                Inl e \<Rightarrow> Inl e
              | Inr pads \<Rightarrow>
                  Inr (Lst (header @ lines @ pads @
                       (case ThreeDName m of
                          None \<Rightarrow> []
                        | Some n \<Rightarrow>
                            [Lst [Sym ''model'', Str n,
                                  Lst [Sym ''at'', Lst (Sym ''xyz'' # map SFlt (ThreeDOffset m))],
                                  Lst [Sym ''scale'', Lst (Sym ''xyz'' # map SFlt (ThreeDScale m))],
                                  Lst [Sym ''rotate'',
                                       Lst (Sym ''xyz'' # map SFlt (ThreeDRot m))]]])))))"

fun join :: "string \<Rightarrow> string list \<Rightarrow> string" where
  "join sep [] = []"
| "join sep [x] = x"
| "join sep (x # y # ys) = x @ sep @ join sep (y # ys)"

text \<open>\<^verbatim>\<open>SexpDump\<close>: the text written to the file.\<close>

fun SexpDump :: "python \<Rightarrow> sexp \<Rightarrow> string" where
  "SexpDump py (Lst xs) = ''('' @ join '' '' (map (SexpDump py) xs) @ '')''"
| "SexpDump py (Str s) = [dquote] @ unicode_escape py s @ [dquote]"
| "SexpDump py (Sym s) = s"
| "SexpDump py (SInt n) = str_int py n"
| "SexpDump py (SFlt x) = str_float py x"

text \<open>
  \<^verbatim>\<open>str (sexp)\<close> of the nested list that \<^verbatim>\<open>kicad_sexp\<close> returns, which renders
  every element with \<^verbatim>\<open>repr\<close>; a symbol through \<^verbatim>\<open>SexpSymbol.__repr__\<close>.
\<close>

fun sexp_repr :: "python \<Rightarrow> sexp \<Rightarrow> string" where
  "sexp_repr py (Lst xs) = ''['' @ join '', '' (map (sexp_repr py) xs) @ '']''"
| "sexp_repr py (Str s) = repr_str py s"
| "sexp_repr py (Sym s) = ''SexpSymbol('' @ repr_str py s @ '')''"
| "sexp_repr py (SInt n) = str_int py n"
| "sexp_repr py (SFlt x) = repr_float py x"

subsection \<open>The 3D map\<close>

text \<open>\<^verbatim>\<open>v[i] = x\<close> on a list, with Python's negative indices.\<close>

definition set_item :: "real list \<Rightarrow> int \<Rightarrow> real \<Rightarrow> error + real list" where
  "set_item v i x =
     (if 0 \<le> i \<and> i < int (length v) then Inr (v[nat i := x])
      else if i < 0 \<and> - int (length v) \<le> i then Inr (v[nat (int (length v) + i) := x])
      else Inl IndexError)"

text \<open>\<^verbatim>\<open>index = ord (key[3]) - ord ('x')\<close>\<close>

definition axis_index :: "string \<Rightarrow> error + int" where
  "axis_index key =
     (if length key \<le> 3 then Inl IndexError
      else Inr (int (of_char (key ! 3)) - int (of_char CHR ''x'')))"

text \<open>
  \<^verbatim>\<open>index = ...; vector[index] = float (value)\<close>: the index first, then the
  conversion, then the assignment.
\<close>

definition set_axis :: "python \<Rightarrow> string \<Rightarrow> string \<Rightarrow> real list \<Rightarrow> error + real list" where
  "set_axis py key value v =
     (case axis_index key of
        Inl e \<Rightarrow> Inl e
      | Inr index \<Rightarrow>
          (case float_of py value of
             None \<Rightarrow> Inl ValueError
           | Some x \<Rightarrow> set_item v index x))"

text \<open>
  \<^verbatim>\<open>for i in library.Modules: if i.Name == value: current_module = i; break\<close>.
  The current module is an object of the library; here it is its position in the list.
\<close>

fun first_named :: "string \<Rightarrow> PCBmodule list \<Rightarrow> nat option" where
  "first_named value [] = None"
| "first_named value (i # rest) =
     (if Name i = value then Some 0 else map_option Suc (first_named value rest))"

text \<open>
  One record of the map, after \<^verbatim>\<open>get_string\<close> has returned \<open>key\<close> and \<open>value\<close>
  and left the reader at line number \<open>lineno\<close>.
\<close>

definition map_record ::
  "python \<Rightarrow> string \<Rightarrow> string \<Rightarrow> int \<Rightarrow> nat option \<Rightarrow> PCBmodule list \<Rightarrow>
     error + (nat option \<times> PCBmodule list)" where
  "map_record py key value lineno current_module mods =
     (if key = ''mod'' then
        (case first_named value mods of
           None \<Rightarrow> Inl (ModuleNotFound (lineno - 1) value)
         | Some k \<Rightarrow> Inr (Some k, mods))
      else if key = ''3dmod'' then
        (case current_module of
           None \<Rightarrow> Inl (ParametersBeforeModule (lineno - 1))
         | Some k \<Rightarrow> Inr (current_module, mods[k := (mods ! k)\<lparr>ThreeDName := Some value\<rparr>]))
      else if startswith key ''rot'' then
        (case current_module of
           None \<Rightarrow> Inl (ParametersBeforeModule (lineno - 1))
         | Some k \<Rightarrow>
             (case set_axis py key value (ThreeDRot (mods ! k)) of
                Inl e \<Rightarrow> Inl e
              | Inr v \<Rightarrow> Inr (current_module, mods[k := (mods ! k)\<lparr>ThreeDRot := v\<rparr>])))
      else if startswith key ''sca'' then
        (case current_module of
           None \<Rightarrow> Inl (ParametersBeforeModule (lineno - 1))
         | Some k \<Rightarrow>
             (case set_axis py key value (ThreeDScale (mods ! k)) of
                Inl e \<Rightarrow> Inl e
              | Inr v \<Rightarrow> Inr (current_module, mods[k := (mods ! k)\<lparr>ThreeDScale := v\<rparr>])))
      else if startswith key ''off'' then
        (case current_module of
           None \<Rightarrow> Inl (ParametersBeforeModule (lineno - 1))
         | Some k \<Rightarrow>
             (case set_axis py key value (ThreeDOffset (mods ! k)) of
                Inl e \<Rightarrow> Inl e
              | Inr v \<Rightarrow> Inr (current_module, mods[k := (mods ! k)\<lparr>ThreeDOffset := v\<rparr>])))
      else Inl (UnknownKey (lineno - 1) key))"

lemma get_string_skip_length:
  assumes "get_string (skip_blank f) b = Inr (k, v, f')"
  shows "length (File f') < length (File f)"
  using get_string_length [OF assms] skip_blank_length [of f] by simp

function map_loop ::
  "python \<Rightarrow> FreePCBfile \<Rightarrow> nat option \<Rightarrow> PCBmodule list \<Rightarrow> error + PCBmodule list" where
  "map_loop py ff current_module mods =
     (if fst (at_end ff) then Inr mods
      else
        (case get_string (snd (at_end ff)) False of
           Inl e \<Rightarrow> Inl e
         | Inr (key, value, ff') \<Rightarrow>
             (case map_record py key value (Lineno ff') current_module mods of
                Inl e \<Rightarrow> Inl e
              | Inr (current_module', mods') \<Rightarrow> map_loop py ff' current_module' mods')))"
  by pat_completeness auto
termination
  by (relation "measure (\<lambda>(py, ff, current_module, mods). length (File ff))")
    (auto dest: get_string_skip_length)

declare map_loop.simps [simp del]

text \<open>\<open>mapfile\<close> is the lines of the 3D-map file.\<close>

definition process_3dmap :: "python \<Rightarrow> string list \<Rightarrow> Library \<Rightarrow> error + Library" where
  "process_3dmap py mapfile library =
     (case map_loop py (FreePCBfile_init mapfile) None (Modules library) of
        Inl e \<Rightarrow> Inl e
      | Inr mods \<Rightarrow> Inr (library\<lparr>Modules := mods\<rparr>))"

subsection \<open>The conversion run\<close>

text \<open>A loop over the modules that stops at the first exception.\<close>

fun for_each :: "(PCBmodule \<Rightarrow> error + PCBmodule) \<Rightarrow> PCBmodule list \<Rightarrow> error + PCBmodule list" where
  "for_each g [] = Inr []"
| "for_each g (i # rest) =
     (case g i of
        Inl e \<Rightarrow> Inl e
      | Inr i' \<Rightarrow> (case for_each g rest of Inl e \<Rightarrow> Inl e | Inr rest' \<Rightarrow> Inr (i' # rest')))"

text \<open>\<^verbatim>\<open>struct.unpack ("<L", b)[0]\<close>: four bytes, the least significant first.\<close>

definition little_endian :: "8 word list \<Rightarrow> int" where
  "little_endian bs = foldr (\<lambda>b acc. uint b + 256 * acc) bs 0"

definition unpack_L :: "8 word list \<Rightarrow> error + int" where
  "unpack_L bs = (if length bs \<noteq> 4 then Inl StructError else Inr (little_endian bs))"

text \<open>The body of the loop under \<^verbatim>\<open>if args.hashtime\<close>.\<close>

definition hash_time :: "python \<Rightarrow> Options \<Rightarrow> PCBmodule \<Rightarrow> error + PCBmodule" where
  "hash_time py opts i =
     (case PCBmodule_kicad_sexp py opts (i\<lparr>tedit := 0\<rparr>) of
        Inl e \<Rightarrow> Inl e
      | Inr sexp \<Rightarrow>
          (case unpack_L (take 4 (md5 py (sexp_repr py sexp))) of
             Inl e \<Rightarrow> Inl e
           | Inr t \<Rightarrow> Inr (i\<lparr>tedit := of_int t\<rparr>)))"

text \<open>
  The loading loop of \<^verbatim>\<open>main\<close> over the input files, each given as its lines. A
  module is stamped when its constructor ends, so the \<open>k\<close>-th module of a file is the
  \<open>(n + k)\<close>-th reading of the clock, \<open>n\<close> the number of modules loaded before.
\<close>

fun load :: "(nat \<Rightarrow> real) \<Rightarrow> string list list \<Rightarrow> Library \<Rightarrow> error + Library" where
  "load clock [] library = Inr library"
| "load clock (file # files) library =
     (case Library_init (FreePCBfile_init file) (\<lambda>k. clock (length (Modules library) + k)) of
        Inl e \<Rightarrow> Inl e
      | Inr sublibrary \<Rightarrow>
          (case Library_iadd library sublibrary of
             Inl e \<Rightarrow> Inl e
           | Inr library' \<Rightarrow> load clock files library'))"

text \<open>The passes of \<^verbatim>\<open>main\<close> between loading and writing, in the source's order.\<close>

definition transform :: "python \<Rightarrow> Options \<Rightarrow> Library \<Rightarrow> error + Library" where
  "transform py opts library =
     (case (if opt_strip_lmn opts then for_each strip_lmn (Modules library)
            else Inr (Modules library)) of
        Inl e \<Rightarrow> Inl e
      | Inr mods1 \<Rightarrow>
          (case (case threedmap opts of
                   None \<Rightarrow> Inr (library\<lparr>Modules := mods1\<rparr>)
                 | Some mapfile \<Rightarrow> process_3dmap py mapfile (library\<lparr>Modules := mods1\<rparr>)) of
             Inl e \<Rightarrow> Inl e
           | Inr library2 \<Rightarrow>
               (case (case courtyard opts of
                        None \<Rightarrow> Inr (Modules library2)
                      | Some spacing \<Rightarrow>
                          for_each (\<lambda>i. add_courtyard py i spacing) (Modules library2)) of
                  Inl e \<Rightarrow> Inl e
                | Inr mods3 \<Rightarrow>
                    (case (if hashtime opts then for_each (hash_time py opts) mods3
                           else Inr mods3) of
                       Inl e \<Rightarrow> Inl e
                     | Inr mods4 \<Rightarrow> Inr (library2\<lparr>Modules := mods4\<rparr>)))))"

text \<open>
  The writing loop: each module's file is opened (and so created empty) before its
  expression is built. A written file is (directory, file name, content); the second
  component of the result is the exception that ended the loop, if any.
\<close>

fun write_all ::
  "python \<Rightarrow> Options \<Rightarrow> PCBmodule list \<Rightarrow> (string \<times> string \<times> string) list \<times> error option" where
  "write_all py opts [] = ([], None)"
| "write_all py opts (i # rest) =
     (case PCBmodule_kicad_sexp py opts i of
        Inl e \<Rightarrow> ([(outdir opts, Name i @ ''.kicad_mod'', [])], Some e)
      | Inr sexp \<Rightarrow>
          (case write_all py opts rest of
             (written, r) \<Rightarrow>
               ((outdir opts, Name i @ ''.kicad_mod'', SexpDump py sexp) # written, r)))"

text \<open>
  \<^verbatim>\<open>main\<close> for input files named on the command line (the \<^verbatim>\<open>zipfile\<close> argument
  left out); the progress messages it prints are not part of the result.
\<close>

definition main ::
  "python \<Rightarrow> Options \<Rightarrow> (nat \<Rightarrow> real) \<Rightarrow> string list list \<Rightarrow>
     (string \<times> string \<times> string) list \<times> error option" where
  "main py opts clock infile =
     (case load clock infile Library_empty of
        Inl e \<Rightarrow> ([], Some e)
      | Inr library \<Rightarrow>
          (case transform py opts library of
             Inl e \<Rightarrow> ([], Some e)
           | Inr library' \<Rightarrow> write_all py opts (Modules library')))"

subsection \<open>Example sources\<close>

text \<open>A module with three header records and three scalar body records, then a blank line.\<close>

definition scalar_module :: "string list" where
  "scalar_module =
     [''name: A'', ''author: B'', ''source: C'',
      ''  units: NM'', ''  sel_rect: 0 0 1 1'', ''  ref_text: 1 2 3 4 5'', '''']"

text \<open>The same with a blank line between two body records.\<close>

definition scalar_module_blank_inside :: "string list" where
  "scalar_module_blank_inside =
     [''name: A'', ''author: B'', ''source: C'',
      ''  units: NM'', ''  sel_rect: 0 0 1 1'', '''', ''  ref_text: 1 2 3 4 5'', '''']"

text \<open>The same without the final blank line: the last line is a scalar body record.\<close>

definition scalar_module_unterminated :: "string list" where
  "scalar_module_unterminated =
     [''name: A'', ''author: B'', ''source: C'',
      ''  units: NM'', ''  sel_rect: 0 0 1 1'', ''  ref_text: 1 2 3 4 5'']"

text \<open>A module with one pin whose last line is its pad record, no blank line after it.\<close>

definition pad_module_unterminated :: "string list" where
  "pad_module_unterminated =
     [''name: A'', ''author: B'', ''source: C'',
      ''  units: NM'', ''  sel_rect: 0 0 1 1'', ''  ref_text: 1 2 3 4 5'', ''  n_pins: 1'',
      ''  pin: 1 0 0 0 0'', ''    top_pad: 1 500000 250000 250000 0'']"

text \<open>
  Stand-ins for the library functions and a set of options with only the
  deterministic timestamp switched on, to run the converter on an example. The
  stand-in for the rounding is the identity: it agrees with the rounding on every
  number that is a double, and the examples below use only such numbers.
\<close>

definition toy_python :: python where
  "toy_python =
     \<lparr>md5 = (\<lambda>s. [1, 2, 3, 4, 5, 6, 7, 8, 9, 10, 11, 12, 13, 14, 15, 16]),
      format_08X = (\<lambda>n. ''00000000''),
      str_int = (\<lambda>n. ''0''),
      str_float = (\<lambda>x. ''0.0''),
      repr_float = (\<lambda>x. ''0.0''),
      repr_str = (\<lambda>s. s),
      unicode_escape = (\<lambda>s. s),
      float_of = (\<lambda>s. None),
      round_double = (\<lambda>x. x)\<rparr>"

definition hashtime_options :: Options where
  "hashtime_options =
     \<lparr>roundedpads = None, rpexceptions = [], rcexceptions = [], opt_strip_lmn = False,
      threedmap = None, courtyard = None, hashtime = True, outdir = ''out''\<rparr>"

subsection \<open>Notions used to state the claims\<close>

text \<open>The shape policy in the words of the specification.\<close>

definition matches_any :: "(string \<Rightarrow> bool) list \<Rightarrow> string \<Rightarrow> bool" where
  "matches_any exceptions modname = (\<exists>regex \<in> set exceptions. regex modname)"

definition shape_policy :: "Options \<Rightarrow> Pin \<Rightarrow> string" where
  "shape_policy opts p =
     (if roundedpads opts = None then ''rect''
      else if Coords p = (0, 0) \<and> matches_any (rcexceptions opts) (ModName p) then ''rect''
      else if roundedpads opts = Some ''all'' then
        (if matches_any (rpexceptions opts) (ModName p) then ''rect'' else ''oval'')
      else
        (if PinName p = ''1'' \<or> matches_any (rpexceptions opts) (ModName p) then ''rect''
         else ''oval''))"

text \<open>
  The box (L, R, T, B) expanded by a spacing of \<open>s\<close> millimetres on all four sides, in
  double arithmetic: the spacing in nanometres is the rounded product, each side the
  rounded difference or sum.
\<close>

definition expanded_box ::
  "python \<Rightarrow> real \<Rightarrow> real \<times> real \<times> real \<times> real \<Rightarrow> real \<times> real \<times> real \<times> real" where
  "expanded_box py s box =
     (case box of
        (L, R, T, B) \<Rightarrow>
          (let d = round_double py (round_double py s * 1000000)
           in (round_double py (round_double py L - d), round_double py (round_double py R + d),
               round_double py (round_double py T + d), round_double py (round_double py B - d))))"

text \<open>Two libraries are alike when they differ in their timestamps only.\<close>

definition untimed :: "PCBmodule list \<Rightarrow> PCBmodule list" where
  "untimed ms = map (\<lambda>m. m\<lparr>tedit := 0\<rparr>) ms"

definition untimed_library :: "Library \<Rightarrow> Library" where
  "untimed_library l = l\<lparr>Modules := untimed (Modules l)\<rparr>"

section \<open>The claims\<close>

subsection \<open>Helper facts\<close>

lemma duplicate_scan_None:
  "duplicate_scan xs ys = None \<longleftrightarrow> Name ` set xs \<inter> Name ` set ys = {}"
proof (induction xs)
  case Nil
  show ?case by simp
next
  case (Cons i rest)
  have "find (\<lambda>j. Name i = Name j) ys = None \<longleftrightarrow> Name i \<notin> Name ` set ys"
    by (auto simp: find_None_iff)
  with Cons show ?case
    by (auto split: option.splits)
qed

lemma duplicate_scan_Some:
  "duplicate_scan xs ys = Some n \<Longrightarrow> n \<in> Name ` set xs \<inter> Name ` set ys"
proof (induction xs)
  case Nil
  then show ?case by simp
next
  case (Cons i rest)
  show ?case
  proof (cases "find (\<lambda>j. Name i = Name j) ys")
    case None
    with Cons show ?thesis by auto
  next
    case (Some j)
    then have "Name i \<in> Name ` set ys"
      by (auto simp: find_Some_iff)
    with Cons.prems Some show ?thesis by auto
  qed
qed

subsection \<open>C6: merging libraries\<close>

text \<open>
  C6. Merging two libraries whose module names are disjoint gives the first library's
  modules followed by the second's, so the count is the sum of the two counts. Merging
  two libraries that share a module name raises the duplicate-name error, which carries
  a name that occurs in both; the result is then the error alone, no library.
\<close>

theorem Library_iadd_merge:
  "(Name ` set (Modules a) \<inter> Name ` set (Modules b) = {} \<longrightarrow>
      (\<exists>c. Library_iadd a b = Inr c \<and> Modules c = Modules a @ Modules b \<and>
           length (Modules c) = length (Modules a) + length (Modules b))) \<and>
   (Name ` set (Modules a) \<inter> Name ` set (Modules b) \<noteq> {} \<longrightarrow>
      (\<exists>n. Library_iadd a b = Inl (DuplicateModule n) \<and>
           n \<in> Name ` set (Modules a) \<inter> Name ` set (Modules b)))"
proof (cases "duplicate_scan (Modules a) (Modules b)")
  case None
  then show ?thesis
    using duplicate_scan_None [of "Modules a" "Modules b"]
    by (simp add: Library_iadd_def)
next
  case (Some n)
  then show ?thesis
    using duplicate_scan_None [of "Modules a" "Modules b"]
      duplicate_scan_Some [of "Modules a" "Modules b" n]
    by (simp add: Library_iadd_def)
qed

theorem Library_iadd_merge_witness:
  "(\<exists>c. Library_iadd \<lparr>Modules = [PCBmodule_new\<lparr>Name := ''A''\<rparr>]\<rparr>
             \<lparr>Modules = [PCBmodule_new\<lparr>Name := ''B''\<rparr>]\<rparr> = Inr c \<and>
        Modules c = [PCBmodule_new\<lparr>Name := ''A''\<rparr>, PCBmodule_new\<lparr>Name := ''B''\<rparr>] \<and>
        length (Modules c) = 2) \<and>
   (\<exists>n. Library_iadd \<lparr>Modules = [PCBmodule_new\<lparr>Name := ''A''\<rparr>]\<rparr>
             \<lparr>Modules = [PCBmodule_new\<lparr>Name := ''B''\<rparr>, PCBmodule_new\<lparr>Name := ''A''\<rparr>]\<rparr>
          = Inl (DuplicateModule n) \<and> n = ''A'')"
  using Library_iadd_merge [of "\<lparr>Modules = [PCBmodule_new\<lparr>Name := ''A''\<rparr>]\<rparr>"
      "\<lparr>Modules = [PCBmodule_new\<lparr>Name := ''B''\<rparr>]\<rparr>"]
    Library_iadd_merge [of "\<lparr>Modules = [PCBmodule_new\<lparr>Name := ''A''\<rparr>]\<rparr>"
      "\<lparr>Modules = [PCBmodule_new\<lparr>Name := ''B''\<rparr>, PCBmodule_new\<lparr>Name := ''A''\<rparr>]\<rparr>"]
  by auto

subsection \<open>C9: name normalisation\<close>

text \<open>
  C9. On a module with a non-empty name, the normalisation pass leaves the name
  unchanged when its last character is none of L, M, N, l, m, n, and removes exactly
  the last character when it is one of them; nothing else in the module changes.
\<close>

theorem strip_lmn_last:
  "Name m \<noteq> [] \<Longrightarrow>
     strip_lmn m =
       Inr (if last (Name m) \<in> {CHR ''L'', CHR ''M'', CHR ''N'', CHR ''l'', CHR ''m'', CHR ''n''}
            then m\<lparr>Name := butlast (Name m)\<rparr> else m)"
  by (simp add: strip_lmn_def)

theorem strip_lmn_last_witness:
  "strip_lmn (PCBmodule_new\<lparr>Name := ''SOIC8N''\<rparr>) = Inr (PCBmodule_new\<lparr>Name := ''SOIC8''\<rparr>) \<and>
   strip_lmn (PCBmodule_new\<lparr>Name := ''SOIC8''\<rparr>) = Inr (PCBmodule_new\<lparr>Name := ''SOIC8''\<rparr>)"
  using strip_lmn_last [of "PCBmodule_new\<lparr>Name := ''SOIC8N''\<rparr>"]
    strip_lmn_last [of "PCBmodule_new\<lparr>Name := ''SOIC8''\<rparr>"]
  by simp

subsection \<open>C1: pad-shape resolution\<close>

lemma can_round_fold:
  "fold (\<lambda>regex can. if regex modname then False else can) exceptions b =
     (b \<and> \<not> matches_any exceptions modname)"
  by (induction exceptions arbitrary: b) (auto simp: matches_any_def)

lemma can_round_iff: "can_round exceptions modname = (\<not> matches_any exceptions modname)"
  by (simp add: can_round_def can_round_fold)

text \<open>
  C1. A surface-mount pin (drill diameter 0) that has a top pad and angle 0 or 90 is
  emitted, under each of the three rounded-pad modes, as one pad whose shape is the one
  the policy gives: rect when the mode is unset; else rect for a pin at (0,0) of a
  module on the center-pad exception list; else, for mode all, oval unless the module is
  on the general exception list; else, for mode allbut1, oval unless the pin is named 1
  or the module is on the general exception list. In the scenario (mode all, no
  exceptions, pin at (0,0), angle 0, width 500000, lengths 250000 and 250000) the shape
  is oval and the size is (0.5, 0.5).
\<close>

theorem Pin_kicad_sexp_shape:
  "(DrillDiam p = 0 \<and> TopPad p = Some pd \<and> (Angle p = 0 \<or> Angle p = 90) \<and>
    roundedpads opts \<in> {None, Some ''all'', Some ''allbut1''} \<longrightarrow>
      Pin_kicad_sexp opts p =
        Inr [Lst [Sym ''pad'', Str (PinName p), Sym ''smd'', Sym (shape_policy opts p),
                  Lst [Sym ''at'', SFlt (to_mm (of_int (fst (Coords p)))),
                       SFlt (- to_mm (of_int (snd (Coords p))))],
                  Lst [Sym ''size'',
                       SFlt (to_mm (of_int (if Angle p = 90 then Width pd
                                            else Len1 pd + Len2 pd))),
                       SFlt (to_mm (of_int (if Angle p = 90 then Len1 pd + Len2 pd
                                            else Width pd)))],
                  Lst [Sym ''layers'', Str ''F.Cu'', Str ''F.Paste'', Str ''F.Mask'']]]) \<and>
   Pin_kicad_sexp
     (opts0\<lparr>roundedpads := Some ''all'', rpexceptions := [], rcexceptions := []\<rparr>)
     (q\<lparr>DrillDiam := 0, Coords := (0, 0), Angle := 0,
        TopPad := Some \<lparr>Shape = sh, Width = 500000, Len1 = 250000, Len2 = 250000,
                         CornRad = cr\<rparr>\<rparr>) =
     Inr [Lst [Sym ''pad'', Str (PinName q), Sym ''smd'', Sym ''oval'',
               Lst [Sym ''at'', SFlt 0, SFlt 0],
               Lst [Sym ''size'', SFlt 0.5, SFlt 0.5],
               Lst [Sym ''layers'', Str ''F.Cu'', Str ''F.Paste'', Str ''F.Mask'']]]"
  (is "(?H \<longrightarrow> ?C) \<and> ?S")
proof (intro conjI impI)
  assume h: ?H
  then have d: "DrillDiam p = 0" and t: "TopPad p = Some pd"
    and a: "Angle p = 0 \<or> Angle p = 90"
    and r: "roundedpads opts \<in> {None, Some ''all'', Some ''allbut1''}"
    by simp_all
  have sz: "pin_size p = Inr (if Angle p = 90 then (Len1 pd + Len2 pd, Width pd)
                              else (Width pd, Len1 pd + Len2 pd))"
    using t a by (auto simp: pin_size_def Let_def)
  from r consider "roundedpads opts = None" | "roundedpads opts = Some ''all''"
    | "roundedpads opts = Some ''allbut1''" by auto
  then show ?C
  proof cases
    case 1
    then show ?thesis
      using d sz by (simp add: Pin_kicad_sexp_def shape_policy_def)
  next
    case 2
    then show ?thesis
      using d sz
      by (simp add: Pin_kicad_sexp_def shape_policy_def can_round_iff Let_def
          eq_commute [of "(0, 0)"])
  next
    case 3
    then show ?thesis
      using d sz
      by (simp add: Pin_kicad_sexp_def shape_policy_def can_round_iff Let_def
          eq_commute [of "(0, 0)"])
  qed
next
  show ?S
    by (simp add: Pin_kicad_sexp_def pin_size_def can_round_def to_mm_def)
qed

text \<open>The witness: a pin named 1 of a module on no list, under mode allbut1, at angle 90.\<close>

theorem Pin_kicad_sexp_shape_witness:
  "Pin_kicad_sexp
     \<lparr>roundedpads = Some ''allbut1'', rpexceptions = [], rcexceptions = [],
      opt_strip_lmn = False, threedmap = None, courtyard = None, hashtime = False,
      outdir = ''out''\<rparr>
     \<lparr>ModName = ''QFN'', PinName = ''1'', DrillDiam = 0, Coords = (1000000, 0), Angle = 90,
      TopPad = Some \<lparr>Shape = 1, Width = 300000, Len1 = 400000, Len2 = 400000, CornRad = 0\<rparr>,
      InnerPad = None, BottomPad = None\<rparr> =
     Inr [Lst [Sym ''pad'', Str ''1'', Sym ''smd'', Sym ''rect'',
               Lst [Sym ''at'', SFlt 1, SFlt 0],
               Lst [Sym ''size'', SFlt 0.3, SFlt 0.8],
               Lst [Sym ''layers'', Str ''F.Cu'', Str ''F.Paste'', Str ''F.Mask'']]]"
  using Pin_kicad_sexp_shape [of
      "\<lparr>ModName = ''QFN'', PinName = ''1'', DrillDiam = 0, Coords = (1000000, 0), Angle = 90,
        TopPad = Some \<lparr>Shape = 1, Width = 300000, Len1 = 400000, Len2 = 400000, CornRad = 0\<rparr>,
        InnerPad = None, BottomPad = None\<rparr>"
      "\<lparr>Shape = 1, Width = 300000, Len1 = 400000, Len2 = 400000, CornRad = 0\<rparr>"
      "\<lparr>roundedpads = Some ''allbut1'', rpexceptions = [], rcexceptions = [],
        opt_strip_lmn = False, threedmap = None, courtyard = None, hashtime = False,
        outdir = ''out''\<rparr>"]
  by (simp add: shape_policy_def matches_any_def to_mm_def)

subsection \<open>C3: the courtyard pass\<close>

lemma courtyard_bounding_box:
  assumes "l \<le> r" and "b \<le> t"
  shows "Polyline_bounding_box (courtyard_polyline l r t b) = Inr (l, r, t, b)"
  using assms
  by (simp add: Polyline_bounding_box_def courtyard_polyline_def Polyline_new_def min_def max_def)

text \<open>
  C3, as amended. For a module whose aggregate bounding box is (L, R, T, B) and a
  spacing s, let (l, r, t, b) be the expanded box as the pass computes it in double
  arithmetic. If that box is not inverted (l <= r and b <= t), the courtyard pass
  appends exactly one polyline to the graphic elements and changes nothing else. The
  new polyline is on layer F.CrtYd; its path is closed, the five points being the
  corners of (l, r, t, b) with the first repeated as the last, while its Closed
  attribute keeps the default False; and its own bounding box is exactly (l, r, t, b).
  Where no operation rounds, (l, r, t, b) is
  (L - s * 10^6, R + s * 10^6, T + s * 10^6, B - s * 10^6).
\<close>

theorem add_courtyard_box:
  assumes "PCBmodule_bounding_box m = Inr (L, R, T, B)"
    and "expanded_box py s (L, R, T, B) = (l, r, t, b)"
    and "l \<le> r" and "b \<le> t"
  shows "\<exists>cy. add_courtyard py m s = Inr (m\<lparr>Graphics := Graphics m @ [GPolyline cy]\<rparr>) \<and>
           Points cy = [(l, t), (r, t), (r, b), (l, b), (l, t)] \<and>
           length (Points cy) = 5 \<and> hd (Points cy) = last (Points cy) \<and>
           Closed cy = False \<and> Layer cy = ''F.CrtYd'' \<and>
           Polyline_bounding_box cy = Inr (l, r, t, b) \<and>
           ((\<forall>x \<in> {s, L, R, T, B, s * 1000000, L - s * 1000000, R + s * 1000000,
                     T + s * 1000000, B - s * 1000000}. round_double py x = x) \<longrightarrow>
              (l, r, t, b) =
                (L - s * 1000000, R + s * 1000000, T + s * 1000000, B - s * 1000000))"
proof -
  let ?cy = "courtyard_polyline l r t b"
  have e: "l = round_double py (round_double py L - from_mm py s)"
    "r = round_double py (round_double py R + from_mm py s)"
    "t = round_double py (round_double py T + from_mm py s)"
    "b = round_double py (round_double py B - from_mm py s)"
    using assms(2) by (simp_all add: expanded_box_def from_mm_def Let_def)
  have a: "add_courtyard py m s = Inr (m\<lparr>Graphics := Graphics m @ [GPolyline ?cy]\<rparr>)"
    using assms(1) by (simp add: add_courtyard_def e)
  have bb: "Polyline_bounding_box ?cy = Inr (l, r, t, b)"
    by (rule courtyard_bounding_box [OF assms(3) assms(4)])
  have p: "Points ?cy = [(l, t), (r, t), (r, b), (l, b), (l, t)]"
    and c: "Closed ?cy = False" and la: "Layer ?cy = ''F.CrtYd''"
    by (simp_all add: courtyard_polyline_def Polyline_new_def)
  have x: "(\<forall>x \<in> {s, L, R, T, B, s * 1000000, L - s * 1000000, R + s * 1000000,
                     T + s * 1000000, B - s * 1000000}. round_double py x = x) \<longrightarrow>
              (l, r, t, b) =
                (L - s * 1000000, R + s * 1000000, T + s * 1000000, B - s * 1000000)"
    by (simp add: e from_mm_def)
  show ?thesis
    using a bb p c la x by (intro exI [of _ ?cy]) simp
qed

text \<open>
  The witness: a module with one outline from (0, 0) to (10, 10) nanometers and a
  spacing of a quarter millimetre; every number involved is a double.
\<close>

theorem add_courtyard_box_witness:
  "PCBmodule_bounding_box
     (PCBmodule_new\<lparr>Graphics := [GPolyline (Polyline_new\<lparr>Points := [(0, 0), (10, 10)]\<rparr>)]\<rparr>) =
     Inr (0, 10, 10, 0) \<and>
   expanded_box toy_python 0.25 (0, 10, 10, 0) = (- 250000, 250010, 250010, - 250000) \<and>
   (\<exists>cy. add_courtyard toy_python
           (PCBmodule_new\<lparr>Graphics := [GPolyline (Polyline_new\<lparr>Points := [(0, 0), (10, 10)]\<rparr>)]\<rparr>)
           0.25 =
         Inr (PCBmodule_new\<lparr>Graphics :=
                [GPolyline (Polyline_new\<lparr>Points := [(0, 0), (10, 10)]\<rparr>), GPolyline cy]\<rparr>) \<and>
         Closed cy = False \<and> Layer cy = ''F.CrtYd'' \<and>
         Polyline_bounding_box cy = Inr (- 250000, 250010, 250010, - 250000))"
proof -
  let ?m = "PCBmodule_new\<lparr>Graphics := [GPolyline (Polyline_new\<lparr>Points := [(0, 0), (10, 10)]\<rparr>)]\<rparr>"
  have b: "PCBmodule_bounding_box ?m = Inr (0, 10, 10, 0)"
    by (simp add: PCBmodule_bounding_box_def Polyline_bounding_box_def Polyline_new_def
        PCBmodule_new_def)
  have x: "expanded_box toy_python 0.25 (0, 10, 10, 0) = (- 250000, 250010, 250010, - 250000)"
    by (simp add: expanded_box_def toy_python_def)
  have g: "Graphics ?m = [GPolyline (Polyline_new\<lparr>Points := [(0, 0), (10, 10)]\<rparr>)]"
    by simp
  show ?thesis
    using add_courtyard_box [OF b x] b x by (simp add: g) blast
qed

text \<open>
  The claim as stated fails within the range of the options, at spacing 0: a module
  whose only element is a pin at (0, 0) with a top pad of width -10 and lengths -5 and
  -5 has the aggregate box (5, -5, -5, 5); the appended polyline spans (-5, 5, 5, -5),
  not (L - s * 10^6, R + s * 10^6, T + s * 10^6, B - s * 10^6) = (5, -5, -5, 5), and
  its Closed attribute is False. Every number involved is a double.
\<close>

theorem add_courtyard_box_counterexample:
  "PCBmodule_bounding_box
     (PCBmodule_new\<lparr>Graphics :=
        [GPin ((Pin_new ''A'')
                 \<lparr>PinName := ''1'',
                  TopPad := Some \<lparr>Shape = 1, Width = - 10, Len1 = - 5, Len2 = - 5,
                                   CornRad = 0\<rparr>\<rparr>)]\<rparr>) =
     Inr (5, - 5, - 5, 5) \<and>
   add_courtyard toy_python
     (PCBmodule_new\<lparr>Graphics :=
        [GPin ((Pin_new ''A'')
                 \<lparr>PinName := ''1'',
                  TopPad := Some \<lparr>Shape = 1, Width = - 10, Len1 = - 5, Len2 = - 5,
                                   CornRad = 0\<rparr>\<rparr>)]\<rparr>)
     0 =
     Inr (PCBmodule_new\<lparr>Graphics :=
            [GPin ((Pin_new ''A'')
                     \<lparr>PinName := ''1'',
                      TopPad := Some \<lparr>Shape = 1, Width = - 10, Len1 = - 5, Len2 = - 5,
                                       CornRad = 0\<rparr>\<rparr>),
             GPolyline (courtyard_polyline 5 (- 5) (- 5) 5)]\<rparr>) \<and>
   Polyline_bounding_box (courtyard_polyline 5 (- 5) (- 5) 5) = Inr (- 5, 5, 5, - 5) \<and>
   (- 5, 5, 5, - 5) \<noteq> (5 - 0 * 1000000, - 5 + 0 * 1000000, - 5 + 0 * 1000000,
                        5 - 0 * (1000000 :: real)) \<and>
   Closed (courtyard_polyline 5 (- 5) (- 5) 5) = False"
  by (simp add: PCBmodule_bounding_box_def Pin_bounding_box_def pin_size_def Pin_new_def
      Polyline_bounding_box_def Polyline_new_def PCBmodule_new_def add_courtyard_def
      from_mm_def courtyard_polyline_def toy_python_def)

subsection \<open>C8: the string-record decoder\<close>

lemma length_minus_dropWhile:
  "length xs - length (dropWhile P xs) = length (takeWhile P xs)"
proof -
  have "length (takeWhile P xs) + length (dropWhile P xs) = length xs"
    by (metis length_append takeWhile_dropWhile_id)
  then show ?thesis by simp
qed

text \<open>
  C8, as amended. For a non-empty token \<open>s\<close>:
  if it starts with a double quote and has a later one, the decoder returns the text
  strictly between the two and, as the count, the characters up to and including the
  closing quote plus the whitespace that immediately follows it;
  if it starts with a double quote and has no later one, it returns the rest of the
  token and the token's length;
  if it does not start with a double quote, it returns the text before the first
  space with its surrounding whitespace stripped, and as the count the length of that text
  (before stripping) plus one.
\<close>

theorem parse_string_cases:
  "s \<noteq> [] \<longrightarrow>
     (hd s = dquote \<and> dquote \<in> set (tl s) \<longrightarrow>
        parse_string s =
          Inr (takeWhile (\<lambda>c. c \<noteq> dquote) (tl s),
               length (takeWhile (\<lambda>c. c \<noteq> dquote) (tl s)) + 2 +
               length (takeWhile is_space
                         (drop (length (takeWhile (\<lambda>c. c \<noteq> dquote) (tl s)) + 2) s)))) \<and>
     (hd s = dquote \<and> dquote \<notin> set (tl s) \<longrightarrow> parse_string s = Inr (tl s, length s)) \<and>
     (hd s \<noteq> dquote \<longrightarrow>
        parse_string s =
          Inr (strip (takeWhile (\<lambda>c. c \<noteq> CHR '' '') s),
               length (takeWhile (\<lambda>c. c \<noteq> CHR '' '') s) + 1))"
proof (cases s)
  case Nil
  then show ?thesis by simp
next
  case (Cons c rest)
  have "take (length (takeWhile (\<lambda>c. c \<noteq> dquote) rest)) rest = takeWhile (\<lambda>c. c \<noteq> dquote) rest"
    by (metis append_eq_conv_conj takeWhile_dropWhile_id)
  then show ?thesis
    using Cons
    by (simp add: parse_string_def partition_at_def Let_def lstrip_def length_minus_dropWhile)
qed

text \<open>
  The witness: a quoted pin name followed by its four integers, an unterminated quote,
  and a bare token.
\<close>

theorem parse_string_cases_witness:
  "parse_string ([dquote] @ ''A1'' @ [dquote] @ ''  0 10 20 90'') = Inr (''A1'', 6) \<and>
   parse_string ([dquote] @ ''A1'') = Inr (''A1'', 3) \<and>
   parse_string ''12 0 10 20 90'' = Inr (''12'', 3)"
  using parse_string_cases [of "[dquote] @ ''A1'' @ [dquote] @ ''  0 10 20 90''"]
    parse_string_cases [of "[dquote] @ ''A1''"]
    parse_string_cases [of "''12 0 10 20 90''"]
  by (simp add: is_space_def strip_def lstrip_def rstrip_def)

text \<open>
  The claim as stated fails on a token whose text before the first space carries
  whitespace: for \<^verbatim>\<open>1<TAB> 0 0 0 0\<close> that text is \<^verbatim>\<open>1<TAB>\<close>, and the decoder
  returns \<^verbatim>\<open>1\<close>.
\<close>

theorem parse_string_counterexample:
  "hd ([CHR ''1'', tab] @ '' 0 0 0 0'') \<noteq> dquote \<and>
   takeWhile (\<lambda>c. c \<noteq> CHR '' '') ([CHR ''1'', tab] @ '' 0 0 0 0'') = [CHR ''1'', tab] \<and>
   parse_string ([CHR ''1'', tab] @ '' 0 0 0 0'') = Inr (''1'', 3) \<and>
   parse_string ([CHR ''1'', tab] @ '' 0 0 0 0'') \<noteq>
     Inr (takeWhile (\<lambda>c. c \<noteq> CHR '' '') ([CHR ''1'', tab] @ '' 0 0 0 0''),
          length (takeWhile (\<lambda>c. c \<noteq> CHR '' '') ([CHR ''1'', tab] @ '' 0 0 0 0'')) + 1)"
  by (simp add: parse_string_def partition_at_def is_space_def strip_def lstrip_def rstrip_def)

subsection \<open>C4: blank values\<close>

text \<open>
  C4. The claim wants a line with a blank value to be accepted when \<open>allow_blank\<close> is
  set. The reader never looks at \<open>allow_blank\<close>: it raises on the line \<^verbatim>\<open>n_pins:\<close>
  with the flag set, and for every reader the result with the flag set is the result
  with the flag unset.
\<close>

theorem get_string_allow_blank_ignored:
  "get_string (FreePCBfile_init [''  n_pins:'']) True = Inl (ExpectedValue 1) \<and>
   get_string (FreePCBfile_init [''  n_pins:'']) False = Inl (ExpectedValue 1) \<and>
   get_string f True = get_string f False"
  by (simp add: get_string_def FreePCBfile_init_def skip_blank_def partition_at_def
      is_space_def strip_def lstrip_def rstrip_def startswith_def endswith_def)

subsection \<open>C7: the keys of the 3D map\<close>

text \<open>
  Once a module is selected, each of the nine axis keys sets the component of its
  vector whose index is the code of the axis letter minus the code of x.
\<close>

lemma map_record_axis_keys:
  assumes "c \<in> {CHR ''x'', CHR ''y'', CHR ''z''}" and "float_of py val = Some x"
    and "length (ThreeDRot (mods ! k)) = 3" and "length (ThreeDScale (mods ! k)) = 3"
    and "length (ThreeDOffset (mods ! k)) = 3"
  shows "map_record py (''rot'' @ [c]) val n (Some k) mods =
           Inr (Some k, mods[k := (mods ! k)\<lparr>ThreeDRot :=
                  (ThreeDRot (mods ! k))[of_char c - of_char CHR ''x'' := x]\<rparr>])"
    and "map_record py (''sca'' @ [c]) val n (Some k) mods =
           Inr (Some k, mods[k := (mods ! k)\<lparr>ThreeDScale :=
                  (ThreeDScale (mods ! k))[of_char c - of_char CHR ''x'' := x]\<rparr>])"
    and "map_record py (''off'' @ [c]) val n (Some k) mods =
           Inr (Some k, mods[k := (mods ! k)\<lparr>ThreeDOffset :=
                  (ThreeDOffset (mods ! k))[of_char c - of_char CHR ''x'' := x]\<rparr>])"
  using assms
  by (auto simp: map_record_def startswith_def set_axis_def axis_index_def set_item_def)

text \<open>
  C7. The claim wants every key other than \<^verbatim>\<open>mod\<close>, \<^verbatim>\<open>3dmod\<close> and the nine axis
  keys to be fatal. The key \<^verbatim>\<open>rotw\<close> is none of them, and the map
  \<^verbatim>\<open>mod: A\<close>, \<^verbatim>\<open>rotw: 90\<close> is accepted: the index is -1, which Python takes from the end
  of the list, so the z rotation of module A is set. (When \<^verbatim>\<open>float ("90")\<close> raises,
  the run ends with that exception, not with the unknown-key error.)
\<close>

theorem process_3dmap_rotw:
  "process_3dmap py [''mod: A'', ''rotw: 90''] \<lparr>Modules = [PCBmodule_new\<lparr>Name := ''A''\<rparr>]\<rparr> =
     (case float_of py ''90'' of
        None \<Rightarrow> Inl ValueError
      | Some x \<Rightarrow> Inr \<lparr>Modules = [PCBmodule_new\<lparr>Name := ''A'', ThreeDRot := [0, 0, x]\<rparr>]\<rparr>)"
proof -
  have g1: "get_string (skip_blank (FreePCBfile_init [''mod: A'', ''rotw: 90''])) False =
      Inr (''mod'', ''A'', \<lparr>File = [''rotw: 90''], Lineno = 2\<rparr>)"
    by (simp add: get_string_def FreePCBfile_init_def skip_blank_def partition_at_def
        is_space_def strip_def lstrip_def rstrip_def startswith_def endswith_def)
  have g2: "get_string (skip_blank \<lparr>File = [''rotw: 90''], Lineno = 2\<rparr>) False =
      Inr (''rotw'', ''90'', \<lparr>File = [], Lineno = 3\<rparr>)"
    by (simp add: get_string_def skip_blank_def partition_at_def
        is_space_def strip_def lstrip_def rstrip_def startswith_def endswith_def)
  have e1: "File (skip_blank (FreePCBfile_init [''mod: A'', ''rotw: 90''])) \<noteq> []"
    by (simp add: FreePCBfile_init_def skip_blank_def is_space_def strip_def lstrip_def rstrip_def)
  have e2: "File (skip_blank \<lparr>File = [''rotw: 90''], Lineno = 2\<rparr>) \<noteq> []"
    by (simp add: skip_blank_def is_space_def strip_def lstrip_def rstrip_def)
  have e3: "File (skip_blank \<lparr>File = [], Lineno = 3\<rparr>) = []"
    by (simp add: skip_blank_def)
  have r1: "map_record py ''mod'' ''A'' 2 None [PCBmodule_new\<lparr>Name := ''A''\<rparr>] =
      Inr (Some 0, [PCBmodule_new\<lparr>Name := ''A''\<rparr>])"
    by (simp add: map_record_def)
  have r2: "map_record py ''rotw'' ''90'' 3 (Some 0) [PCBmodule_new\<lparr>Name := ''A''\<rparr>] =
      (case float_of py ''90'' of
         None \<Rightarrow> Inl ValueError
       | Some x \<Rightarrow> Inr (Some 0, [PCBmodule_new\<lparr>Name := ''A'', ThreeDRot := [0, 0, x]\<rparr>]))"
    by (simp add: map_record_def startswith_def set_axis_def axis_index_def set_item_def
        PCBmodule_new_def split: option.splits)
  show ?thesis
    unfolding process_3dmap_def
    apply (subst map_loop.simps)
    apply (simp add: e1 g1 r1)
    apply (subst map_loop.simps)
    apply (simp add: e2 g2 r2 split: option.splits)
    apply (subst map_loop.simps)
    apply (simp add: e3)
    done
qed

subsection \<open>C10: the end of the input\<close>

lemma rstrip_idem: "rstrip (rstrip l) = rstrip l"
  by (simp add: rstrip_def)

lemma rstripped_strip:
  assumes "rstrip l = l" and "l \<noteq> []"
  shows "strip l \<noteq> []"
proof -
  have "dropWhile is_space (rev l) = rev l"
    using assms(1) by (metis rev_rev_ident rstrip_def)
  moreover have "rev l \<noteq> []" using assms(2) by simp
  ultimately have "\<not> is_space (hd (rev l))"
    by (metis hd_dropWhile)
  then have "\<not> is_space (last l)"
    using assms(2) by (simp add: hd_rev)
  then have "dropWhile is_space l \<noteq> []"
    using assms(2) by (metis dropWhile_eq_Nil_conv last_in_set)
  then show ?thesis
    using assms(1) by (simp add: strip_def lstrip_def)
qed

lemma rstripped_suffix: "rstripped f \<Longrightarrow> suffix (File f') (File f) \<Longrightarrow> rstripped f'"
  by (auto simp: rstripped_def dest: set_mono_suffix)

lemma rstripped_init: "rstripped (FreePCBfile_init ls)"
  by (simp add: rstripped_def FreePCBfile_init_def rstrip_idem)

lemma halfindents_pos: "0 < halfindents l \<Longrightarrow> l \<noteq> []"
  by (cases l) auto

lemma indented_not_blank:
  assumes "rstripped f" and "indent_level f = Inr lvl" and "lvl \<noteq> 0"
  shows "File (skip_blank f) = File f" and "File f \<noteq> []"
proof -
  from assms(2) obtain l rest where f: "File f = l # rest" and lvl: "lvl = halfindents l div 2"
    by (auto simp: indent_level_def split: list.splits)
  from lvl assms(3) have "l \<noteq> []" by (intro halfindents_pos) (simp add: Suc_leI)
  moreover have "rstrip l = l" using assms(1) f by (simp add: rstripped_def)
  ultimately have "strip l \<noteq> []" by (intro rstripped_strip)
  then show "File (skip_blank f) = File f" by (simp add: File_skip_blank f)
  show "File f \<noteq> []" by (simp add: f)
qed

lemma body_loop_leaves_line:
  "rstripped f \<Longrightarrow> body_loop f m = Inr (m', f') \<Longrightarrow> File f' \<noteq> []"
proof (induction f m rule: body_loop.induct)
  case (1 f m)
  from "1.prems"(2) obtain lvl where lvl: "indent_level f = Inr lvl"
    by (subst (asm) body_loop.simps) (auto split: sum.splits)
  show ?case
  proof (cases "lvl = 0")
    case True
    with "1.prems"(2) lvl have "f' = f"
      by (subst (asm) body_loop.simps) simp
    then show ?thesis using indent_level_Inr [OF lvl] by simp
  next
    case False
    have nb: "File (skip_blank f) = File f" "File f \<noteq> []"
      using indented_not_blank [OF "1.prems"(1) lvl False] by simp_all
    then have ae: "\<not> fst (at_end f)" by simp
    with "1.prems"(2) lvl False obtain m1 f1 where
      h: "body_record (snd (at_end f)) m = Inr (m1, f1)" and
      r: "body_loop f1 m1 = Inr (m', f')"
      by (subst (asm) body_loop.simps) (auto split: sum.splits if_splits)
    have "suffix (File f1) (File f)"
      using body_record_suffix [of "skip_blank f"] h nb by (simp add: strict_suffix_def)
    then have "rstripped f1" by (rule rstripped_suffix [OF "1.prems"(1)])
    then show ?thesis
      by (rule "1.IH" [OF lvl False ae h refl _ r])
  qed
qed

lemma header_loop_rstripped:
  assumes "rstripped f" and "header_loop f m = Inr (m', f')"
  shows "rstripped f'"
  using header_loop_suffix [OF assms(2)] assms(1) by (auto intro: rstripped_suffix)

lemma PCBmodule_init_leaves_line:
  assumes "rstripped f" and "PCBmodule_init f now = Inr (m, f')"
  shows "File f' \<noteq> []"
proof -
  from assms(2) obtain m1 f1 m2 where
    h: "header_loop f PCBmodule_new = Inr (m1, f1)" and
    b: "body_loop f1 m1 = Inr (m2, f')"
    unfolding PCBmodule_init_def by (auto split: sum.splits if_splits)
  show ?thesis
    by (rule body_loop_leaves_line [OF header_loop_rstripped [OF assms(1) h] b])
qed

lemma suffix_last: "suffix xs ys \<Longrightarrow> xs \<noteq> [] \<Longrightarrow> last xs = last ys"
  by (auto simp: suffix_def)

lemma library_loop_last_blank:
  "rstripped f \<Longrightarrow> library_loop clock f acc = Inr (ms, f') \<Longrightarrow>
     File f = [] \<or> strip (last (File f)) = []"
proof (induction clock f acc rule: library_loop.induct)
  case (1 clock f acc)
  show ?case
  proof (cases "fst (at_end f)")
    case True
    then have "dropWhile (\<lambda>l. strip l = []) (File f) = []"
      by (simp add: File_skip_blank)
    then have "\<forall>l \<in> set (File f). strip l = []"
      by (simp add: dropWhile_eq_Nil_conv)
    then show ?thesis by (cases "File f = []") auto
  next
    case False
    with "1.prems"(2) obtain m f1 where
      p: "PCBmodule_init (snd (at_end f)) (clock (length acc)) = Inr (m, f1)" and
      r: "library_loop clock f1 (acc @ [m]) = Inr (ms, f')"
      by (subst (asm) library_loop.simps) (auto split: sum.splits)
    have rs: "rstripped (skip_blank f)"
      by (rule rstripped_suffix [OF "1.prems"(1) skip_blank_suffix])
    have ne: "File f1 \<noteq> []"
      using PCBmodule_init_leaves_line [OF rs] p by simp
    have "strict_suffix (File f1) (File (skip_blank f))"
      using PCBmodule_init_suffix [of "skip_blank f"] p by simp
    then have sf: "suffix (File f1) (File f)"
      using skip_blank_suffix [of f] by (meson strict_suffix_def suffix_order.trans)
    have "rstripped f1" by (rule rstripped_suffix [OF "1.prems"(1) sf])
    then have "File f1 = [] \<or> strip (last (File f1)) = []"
      by (rule "1.IH" [OF False p refl _ r])
    with ne have "strip (last (File f1)) = []" by simp
    then show ?thesis using suffix_last [OF sf ne] by simp
  qed
qed

lemma Library_init_last_blank:
  assumes "Library_init (FreePCBfile_init ls) clock = Inr lib"
  shows "ls = [] \<or> rstrip (last ls) = []"
proof (cases "ls = []")
  case True
  then show ?thesis by simp
next
  case False
  from assms obtain ms f' where
    l: "library_loop clock (FreePCBfile_init ls) [] = Inr (ms, f')"
    unfolding Library_init_def by (auto split: sum.splits)
  have "File (FreePCBfile_init ls) = [] \<or> strip (last (File (FreePCBfile_init ls))) = []"
    by (rule library_loop_last_blank [OF rstripped_init l])
  with False have s: "strip (rstrip (last ls)) = []"
    by (simp add: FreePCBfile_init_def last_map)
  show ?thesis
  proof (rule ccontr)
    assume "\<not> (ls = [] \<or> rstrip (last ls) = [])"
    then have "rstrip (last ls) \<noteq> []" by simp
    from rstripped_strip [OF rstrip_idem this] s show False by simp
  qed
qed

text \<open>
  C10, as amended. At the end of the input \<open>indent_level\<close> indexes the current line
  unchecked and raises IndexError, whereas \<open>peek_key\<close> asserts that a line remains and
  raises AssertionError. The header loop and the body loop of a module evaluate
  \<open>indent_level\<close> before the end-of-input test, so on an exhausted reader they raise
  IndexError; the pad loop of a pin and the corner loop of a polyline evaluate
  \<open>peek_key\<close> first, so there they raise AssertionError. Hence a source whose last
  physical line is not blank never parses to a library: the run ends with an exception.
  The exception is whichever comes first: an error that the source provokes before its
  lines run out (a refused record, a failed assertion of the module), or, once the
  last line is consumed, the IndexError or AssertionError of the loop that asks for
  the next line. Two examples: the source
  \<open>scalar_module_unterminated\<close>, which ends in a scalar body record, fails with
  IndexError, and the source \<open>pad_module_unterminated\<close>, which ends in a pad record,
  fails with AssertionError.
\<close>

theorem unterminated_source_fails:
  "(File f = [] \<longrightarrow>
      indent_level f = Inl IndexError \<and> peek_key f = Inl AssertionError \<and>
      header_loop f m = Inl IndexError \<and> body_loop f m = Inl IndexError \<and>
      pin_pads f p = Inl AssertionError \<and> next_corners f pts = Inl AssertionError) \<and>
   (ls \<noteq> [] \<and> rstrip (last ls) \<noteq> [] \<longrightarrow>
      (\<exists>e. Library_init (FreePCBfile_init ls) clock = Inl e)) \<and>
   Library_init (FreePCBfile_init scalar_module_unterminated) (\<lambda>k. 0) = Inl IndexError \<and>
   Library_init (FreePCBfile_init pad_module_unterminated) (\<lambda>k. 0) = Inl AssertionError"
  (is "?A \<and> ?B \<and> ?C \<and> ?D")
proof (intro conjI)
  show ?A
    by (simp add: header_loop.simps [of f m] body_loop.simps [of f m] pin_pads.simps [of f p]
        next_corners.simps [of f pts] indent_level_def peek_key_def)
  show ?B
  proof
    assume h: "ls \<noteq> [] \<and> rstrip (last ls) \<noteq> []"
    show "\<exists>e. Library_init (FreePCBfile_init ls) clock = Inl e"
    proof (cases "Library_init (FreePCBfile_init ls) clock")
      case (Inl e)
      then show ?thesis by blast
    next
      case (Inr lib)
      from Library_init_last_blank [OF Inr] h show ?thesis by simp
    qed
  qed
  show ?C by code_simp
  show ?D by code_simp
qed

theorem unterminated_source_fails_witness:
  "indent_level \<lparr>File = [], Lineno = 1\<rparr> = Inl IndexError \<and>
   peek_key \<lparr>File = [], Lineno = 1\<rparr> = Inl AssertionError \<and>
   header_loop \<lparr>File = [], Lineno = 1\<rparr> PCBmodule_new = Inl IndexError \<and>
   body_loop \<lparr>File = [], Lineno = 1\<rparr> PCBmodule_new = Inl IndexError \<and>
   pin_pads \<lparr>File = [], Lineno = 1\<rparr> (Pin_new ''A'') = Inl AssertionError \<and>
   next_corners \<lparr>File = [], Lineno = 1\<rparr> [(0, 0)] = Inl AssertionError \<and>
   scalar_module_unterminated \<noteq> [] \<and> rstrip (last scalar_module_unterminated) \<noteq> [] \<and>
   (\<exists>e. Library_init (FreePCBfile_init scalar_module_unterminated) (\<lambda>k. 1) = Inl e)"
proof -
  have "scalar_module_unterminated \<noteq> [] \<and> rstrip (last scalar_module_unterminated) \<noteq> []"
    by (simp add: scalar_module_unterminated_def rstrip_def is_space_def)
  then show ?thesis
    using unterminated_source_fails
      [of "\<lparr>File = [], Lineno = 1\<rparr>" PCBmodule_new "Pin_new ''A''" "[(0, 0)]"
        scalar_module_unterminated "\<lambda>k. 1"]
    by simp
qed

text \<open>
  The claim as stated fails twice: \<open>peek_key\<close> does check that a line remains (it
  asserts), and a source that ends with a pad record fails with that assertion, not
  with an indexing error.
\<close>

theorem unterminated_source_counterexample:
  "peek_key \<lparr>File = [], Lineno = 1\<rparr> = Inl AssertionError \<and>
   Library_init (FreePCBfile_init pad_module_unterminated) (\<lambda>k. 0) = Inl AssertionError \<and>
   Library_init (FreePCBfile_init pad_module_unterminated) (\<lambda>k. 0) \<noteq> Inl IndexError"
proof -
  have "Library_init (FreePCBfile_init pad_module_unterminated) (\<lambda>k. 0) = Inl AssertionError"
    by code_simp
  then show ?thesis by (simp add: peek_key_def)
qed

subsection \<open>C5: blank lines\<close>

text \<open>
  C5. The claim wants a blank line to change nothing wherever it is inserted. The
  source \<open>scalar_module\<close> parses to a library of one module; with a blank line
  inserted between its second and third body record it fails: \<open>indent_level\<close> reads
  the blank line as level 0, the body loop ends there, and the assertion that the
  reference text was read fails.
\<close>

theorem blank_line_in_body:
  "scalar_module_blank_inside = take 5 scalar_module @ [''''] @ drop 5 scalar_module \<and>
   Library_init (FreePCBfile_init scalar_module) (\<lambda>k. 0) =
     Inr \<lparr>Modules =
            [PCBmodule_new
               \<lparr>Name := ''A'', Author := ''B'', Source := ''C'', Units := Some ''NM'',
                SelectionRect := Some ''0 0 1 1'', RefText := Some ''1 2 3 4 5''\<rparr>]\<rparr> \<and>
   Library_init (FreePCBfile_init scalar_module_blank_inside) (\<lambda>k. 0) = Inl AssertionError"
  (is "?A \<and> ?B \<and> ?C")
proof (intro conjI)
  show ?A by (simp add: scalar_module_blank_inside_def scalar_module_def)
  show ?B by code_simp
  show ?C by code_simp
qed

subsection \<open>C2: the deterministic timestamp\<close>

lemma untimed_simps [simp]:
  "untimed [] = []" "untimed (m # ms) = m\<lparr>tedit := 0\<rparr> # untimed ms"
  "untimed (xs @ ys) = untimed xs @ untimed ys" "length (untimed ms) = length ms"
  by (simp_all add: untimed_def)

lemma PCBmodule_init_clock:
  "PCBmodule_init f now =
     (case PCBmodule_init f 0 of Inl e \<Rightarrow> Inl e | Inr (m, f') \<Rightarrow> Inr (m\<lparr>tedit := now\<rparr>, f'))"
  by (auto simp: PCBmodule_init_def split: sum.splits)

lemma library_loop_alike:
  "untimed acc1 = untimed acc2 \<Longrightarrow>
     map_sum id (\<lambda>(ms, f'). (untimed ms, f')) (library_loop clock1 f acc1) =
     map_sum id (\<lambda>(ms, f'). (untimed ms, f')) (library_loop clock2 f acc2)"
proof (induction clock1 f acc1 arbitrary: acc2 rule: library_loop.induct)
  case (1 clock1 f acc1)
  show ?case
  proof (cases "fst (at_end f)")
    case True
    then show ?thesis
      using "1.prems"
      by (subst library_loop.simps, subst (2) library_loop.simps) simp
  next
    case False
    show ?thesis
    proof (cases "PCBmodule_init (snd (at_end f)) 0")
      case (Inl e)
      then show ?thesis
        using False
        by (subst library_loop.simps, subst (2) library_loop.simps)
          (simp add: PCBmodule_init_clock [of _ "clock1 (length acc1)"]
            PCBmodule_init_clock [of _ "clock2 (length acc2)"])
    next
      case (Inr r)
      obtain m f1 where r: "r = (m, f1)" by (cases r)
      have p1: "PCBmodule_init (snd (at_end f)) (clock1 (length acc1)) =
          Inr (m\<lparr>tedit := clock1 (length acc1)\<rparr>, f1)"
        using Inr r by (simp add: PCBmodule_init_clock [of _ "clock1 (length acc1)"])
      have p2: "PCBmodule_init (snd (at_end f)) (clock2 (length acc2)) =
          Inr (m\<lparr>tedit := clock2 (length acc2)\<rparr>, f1)"
        using Inr r by (simp add: PCBmodule_init_clock [of _ "clock2 (length acc2)"])
      have u: "untimed (acc1 @ [m\<lparr>tedit := clock1 (length acc1)\<rparr>]) =
          untimed (acc2 @ [m\<lparr>tedit := clock2 (length acc2)\<rparr>])"
        using "1.prems" by simp
      have ih: "map_sum id (\<lambda>(ms, f'). (untimed ms, f'))
            (library_loop clock1 f1 (acc1 @ [m\<lparr>tedit := clock1 (length acc1)\<rparr>])) =
          map_sum id (\<lambda>(ms, f'). (untimed ms, f'))
            (library_loop clock2 f1 (acc2 @ [m\<lparr>tedit := clock2 (length acc2)\<rparr>]))"
        by (rule "1.IH" [OF False p1 refl u])
      have l1: "library_loop clock1 f acc1 =
          library_loop clock1 f1 (acc1 @ [m\<lparr>tedit := clock1 (length acc1)\<rparr>])"
        using False p1 by (subst library_loop.simps) simp
      have l2: "library_loop clock2 f acc2 =
          library_loop clock2 f1 (acc2 @ [m\<lparr>tedit := clock2 (length acc2)\<rparr>])"
        using False p2 by (subst library_loop.simps) simp
      show ?thesis unfolding l1 l2 by (rule ih)
    qed
  qed
qed

lemma Library_init_alike:
  "map_sum id untimed_library (Library_init f clock1) =
   map_sum id untimed_library (Library_init f clock2)"
  using library_loop_alike [of "[]" "[]" clock1 f clock2]
  by (auto simp: Library_init_def untimed_library_def split: sum.splits)

lemma find_Name_untimed:
  "(find (\<lambda>j. n = Name j) (untimed ys) = None) = (find (\<lambda>j. n = Name j) ys = None)"
  by (auto simp: find_None_iff untimed_def)

lemma duplicate_scan_untimed:
  "duplicate_scan (untimed xs) (untimed ys) = duplicate_scan xs ys"
proof (induction xs)
  case Nil
  show ?case by simp
next
  case (Cons i rest)
  show ?case
  proof (cases "find (\<lambda>j. Name i = Name j) ys")
    case None
    then have "find (\<lambda>j. Name i = Name j) (untimed ys) = None"
      by (simp add: find_Name_untimed)
    with None Cons show ?thesis by simp
  next
    case (Some j)
    then obtain j' where "find (\<lambda>j. Name i = Name j) (untimed ys) = Some j'"
      using find_Name_untimed [of "Name i" ys] by (cases "find (\<lambda>j. Name i = Name j) (untimed ys)") auto
    with Some show ?thesis by simp
  qed
qed

lemma Library_iadd_alike:
  assumes "untimed_library a1 = untimed_library a2" and "untimed_library b1 = untimed_library b2"
  shows "map_sum id untimed_library (Library_iadd a1 b1) =
         map_sum id untimed_library (Library_iadd a2 b2)"
proof -
  have a: "untimed (Modules a1) = untimed (Modules a2)"
    using assms(1) by (metis Library.select_convs(1) Library.surjective Library.update_convs(1) untimed_library_def)
  have b: "untimed (Modules b1) = untimed (Modules b2)"
    using assms(2) by (metis Library.select_convs(1) Library.surjective Library.update_convs(1) untimed_library_def)
  have "duplicate_scan (Modules a1) (Modules b1) = duplicate_scan (Modules a2) (Modules b2)"
    using duplicate_scan_untimed [of "Modules a1" "Modules b1"]
      duplicate_scan_untimed [of "Modules a2" "Modules b2"] a b by simp
  then show ?thesis
    using a b assms(1)
    by (cases a1, cases a2) (auto simp: Library_iadd_def untimed_library_def split: option.splits)
qed

lemma load_alike:
  "untimed_library l1 = untimed_library l2 \<Longrightarrow>
     map_sum id untimed_library (load clock1 files l1) =
     map_sum id untimed_library (load clock2 files l2)"
proof (induction files arbitrary: l1 l2)
  case Nil
  then show ?case by simp
next
  case (Cons fl files)
  let ?i1 = "Library_init (FreePCBfile_init fl) (\<lambda>k. clock1 (length (Modules l1) + k))"
  let ?i2 = "Library_init (FreePCBfile_init fl) (\<lambda>k. clock2 (length (Modules l2) + k))"
  have i: "map_sum id untimed_library ?i1 = map_sum id untimed_library ?i2"
    by (rule Library_init_alike)
  show ?case
  proof (cases ?i1)
    case (Inl e)
    with i have "?i2 = Inl e" by (cases ?i2) auto
    with Inl show ?thesis by simp
  next
    case (Inr s1)
    with i obtain s2 where s2: "?i2 = Inr s2" and s: "untimed_library s1 = untimed_library s2"
      by (cases ?i2) auto
    have m: "map_sum id untimed_library (Library_iadd l1 s1) =
        map_sum id untimed_library (Library_iadd l2 s2)"
      by (rule Library_iadd_alike [OF Cons.prems s])
    show ?thesis
    proof (cases "Library_iadd l1 s1")
      case (Inl e)
      with m have "Library_iadd l2 s2 = Inl e" by (cases "Library_iadd l2 s2") auto
      with Inl Inr s2 show ?thesis by simp
    next
      case r1: (Inr l1')
      with m obtain l2' where r2: "Library_iadd l2 s2 = Inr l2'"
        and l: "untimed_library l1' = untimed_library l2'"
        by (cases "Library_iadd l2 s2") auto
      from Cons.IH [OF l] Inr s2 r1 r2 show ?thesis by simp
    qed
  qed
qed

lemma for_each_untimed:
  assumes "\<And>i. g (i\<lparr>tedit := 0\<rparr>) = map_sum id (\<lambda>i. i\<lparr>tedit := 0\<rparr>) (g i)"
  shows "for_each g (untimed ms) = map_sum id untimed (for_each g ms)"
proof (induction ms)
  case Nil
  show ?case by simp
next
  case (Cons i rest)
  show ?case
    by (cases "g i"; cases "for_each g rest") (simp_all add: assms Cons)
qed

lemma strip_lmn_untimed:
  "strip_lmn (i\<lparr>tedit := 0\<rparr>) = map_sum id (\<lambda>i. i\<lparr>tedit := 0\<rparr>) (strip_lmn i)"
  by (simp add: strip_lmn_def)

lemma add_courtyard_untimed:
  "add_courtyard py (i\<lparr>tedit := 0\<rparr>) s =
     map_sum id (\<lambda>i. i\<lparr>tedit := 0\<rparr>) (add_courtyard py i s)"
  by (cases "PCBmodule_bounding_box i")
    (auto simp: add_courtyard_def PCBmodule_bounding_box_def Let_def)

lemma hash_time_untimed: "hash_time py opts (i\<lparr>tedit := 0\<rparr>) = hash_time py opts i"
  by (simp add: hash_time_def split: sum.splits)

lemma for_each_hash_time_untimed:
  "for_each (hash_time py opts) (untimed ms) = for_each (hash_time py opts) ms"
  by (induction ms) (simp_all add: hash_time_untimed split: sum.splits)

lemma first_named_untimed: "first_named v (untimed ms) = first_named v ms"
  by (induction ms) simp_all

lemma nth_untimed: "k < length ms \<Longrightarrow> untimed ms ! k = (ms ! k)\<lparr>tedit := 0\<rparr>"
  by (simp add: untimed_def)

lemma nth_untimed_beyond: "length ms \<le> k \<Longrightarrow> untimed ms ! k = ms ! k"
proof (induction ms arbitrary: k)
  case Nil
  show ?case by simp
next
  case (Cons m ms)
  then obtain k' where "k = Suc k'" by (cases k) auto
  with Cons show ?case by simp
qed

lemma vectors_untimed:
  "ThreeDRot (untimed ms ! k) = ThreeDRot (ms ! k)"
  "ThreeDScale (untimed ms ! k) = ThreeDScale (ms ! k)"
  "ThreeDOffset (untimed ms ! k) = ThreeDOffset (ms ! k)"
  by (cases "k < length ms"; simp add: nth_untimed nth_untimed_beyond)+

lemma update_untimed:
  assumes "\<And>i. h (i\<lparr>tedit := 0\<rparr>) = (h i)\<lparr>tedit := 0\<rparr>"
  shows "(untimed ms)[k := h (untimed ms ! k)] = untimed (ms[k := h (ms ! k)])"
proof (cases "k < length ms")
  case True
  then show ?thesis
    by (simp add: nth_untimed assms) (simp add: untimed_def map_update)
next
  case False
  then have "length ms \<le> k" by simp
  then have "(untimed ms)[k := h (untimed ms ! k)] = untimed ms" and "ms[k := h (ms ! k)] = ms"
    by (simp_all add: list_update_beyond)
  then show ?thesis by simp
qed

lemma map_record_untimed:
  "map_record py key val n cur (untimed ms) =
     map_sum id (\<lambda>(c, ms'). (c, untimed ms')) (map_record py key val n cur ms)"
  unfolding map_record_def
  by (auto simp: first_named_untimed vectors_untimed update_untimed split: option.splits sum.splits)

lemma map_loop_untimed:
  "map_loop py ff cur (untimed ms) = map_sum id untimed (map_loop py ff cur ms)"
proof (induction py ff cur ms rule: map_loop.induct)
  case (1 py ff cur ms)
  note u1 = map_loop.simps [of py ff cur ms] and u2 = map_loop.simps [of py ff cur "untimed ms"]
  show ?case
  proof (cases "fst (at_end ff)")
    case True
    then show ?thesis by (simp add: u1 u2)
  next
    case False
    show ?thesis
    proof (cases "get_string (snd (at_end ff)) False")
      case (Inl e)
      with False show ?thesis by (simp add: u1 u2)
    next
      case (Inr r)
      obtain key val ff' where r: "r = (key, val, ff')" by (cases r) auto
      show ?thesis
      proof (cases "map_record py key val (Lineno ff') cur ms")
        case (Inl e)
        with False Inr r show ?thesis by (simp add: u1 u2 map_record_untimed)
      next
        case rr: (Inr q)
        obtain cur' ms' where q: "q = (cur', ms')" by (cases q)
        have g: "get_string (snd (at_end ff)) False = Inr (key, val, ff')"
          using Inr r by simp
        have m: "map_record py key val (Lineno ff') cur ms = Inr (cur', ms')"
          using rr q by simp
        have ih: "map_loop py ff' cur' (untimed ms') = map_sum id untimed (map_loop py ff' cur' ms')"
          by (rule "1.IH" [OF False g refl refl m refl])
        show ?thesis
          using False Inr r rr q ih by (simp add: u1 u2 map_record_untimed id_def)
      qed
    qed
  qed
qed


lemma for_each_strip_lmn_untimed:
  "for_each strip_lmn (untimed ms) = map_sum id untimed (for_each strip_lmn ms)"
  by (rule for_each_untimed) (rule strip_lmn_untimed)

lemma for_each_add_courtyard_untimed:
  "for_each (\<lambda>i. add_courtyard py i s) (untimed ms) =
     map_sum id untimed (for_each (\<lambda>i. add_courtyard py i s) ms)"
  by (rule for_each_untimed) (rule add_courtyard_untimed)


lemma Library_Modules_update: "(l :: Library)\<lparr>Modules := ms\<rparr> = \<lparr>Modules = ms\<rparr>"
  by (cases l) simp

lemma transform_alike:
  assumes "hashtime opts" and "untimed_library l1 = untimed_library l2"
  shows "transform py opts l1 = transform py opts l2"
proof -
  have u: "untimed (Modules l1) = untimed (Modules l2)"
    using assms(2)
    by (metis Library.select_convs(1) Library.surjective Library.update_convs(1)
        untimed_library_def)
  define s1 where "s1 ms = (if opt_strip_lmn opts then for_each strip_lmn ms else Inr ms)" for ms
  define s2 where "s2 ms = (case threedmap opts of None \<Rightarrow> Inr ms
      | Some mapfile \<Rightarrow> map_loop py (FreePCBfile_init mapfile) None ms)" for ms
  define s3 where "s3 ms = (case courtyard opts of None \<Rightarrow> Inr ms
      | Some spacing \<Rightarrow> for_each (\<lambda>i. add_courtyard py i spacing) ms)" for ms
  define s4 where "s4 ms = for_each (hash_time py opts) ms" for ms
  define run where "run ms = (case s1 ms of Inl e \<Rightarrow> Inl e | Inr ms1 \<Rightarrow>
      (case s2 ms1 of Inl e \<Rightarrow> Inl e | Inr ms2 \<Rightarrow>
      (case s3 ms2 of Inl e \<Rightarrow> Inl e | Inr ms3 \<Rightarrow>
      (case s4 ms3 of Inl e \<Rightarrow> Inl e | Inr ms4 \<Rightarrow> Inr \<lparr>Modules = ms4\<rparr>))))" for ms
  have t: "transform py opts l = run (Modules l)" for l
    using assms(1)
    by (auto simp: transform_def run_def s1_def s2_def s3_def s4_def process_3dmap_def
        Library_Modules_update split: sum.splits option.splits)
  have c1: "s1 (untimed ms) = map_sum id untimed (s1 ms)" for ms
    by (simp add: s1_def for_each_strip_lmn_untimed)
  have c2: "s2 (untimed ms) = map_sum id untimed (s2 ms)" for ms
    by (simp add: s2_def map_loop_untimed split: option.splits)
  have c3: "s3 (untimed ms) = map_sum id untimed (s3 ms)" for ms
    by (simp add: s3_def for_each_add_courtyard_untimed split: option.splits)
  have c4: "s4 (untimed ms) = s4 ms" for ms
    by (simp add: s4_def for_each_hash_time_untimed)
  have r: "run (untimed ms) = run ms" for ms
  proof (cases "s1 ms")
    case (Inl e)
    then show ?thesis by (simp add: run_def c1)
  next
    case i1: (Inr ms1)
    show ?thesis
    proof (cases "s2 ms1")
      case (Inl e)
      with i1 show ?thesis by (simp add: run_def c1 c2)
    next
      case i2: (Inr ms2)
      show ?thesis
      proof (cases "s3 ms2")
        case (Inl e)
        with i1 i2 show ?thesis by (simp add: run_def c1 c2 c3)
      next
        case i3: (Inr ms3)
        with i1 i2 show ?thesis by (simp add: run_def c1 c2 c3 c4)
      qed
    qed
  qed
  have "transform py opts l1 = run (untimed (Modules l1))" by (simp add: t r)
  also have "\<dots> = run (untimed (Modules l2))" by (simp add: u)
  also have "\<dots> = transform py opts l2" by (simp add: t r)
  finally show ?thesis .
qed

lemma little_endian_append:
  "little_endian (xs @ ys) = little_endian xs + 256 ^ length xs * little_endian ys"
  by (induction xs) (simp_all add: little_endian_def algebra_simps)

lemma little_endian_bound: "0 \<le> little_endian xs \<and> little_endian xs < 256 ^ length xs"
proof (induction xs)
  case Nil
  show ?case by (simp add: little_endian_def)
next
  case (Cons b xs)
  have "uint b < 256" using uint_bounded [of b] by simp
  moreover have "0 \<le> uint b" by simp
  moreover have "little_endian (b # xs) = uint b + 256 * little_endian xs"
    by (simp add: little_endian_def)
  moreover have "little_endian xs + 1 \<le> 256 ^ length xs" using Cons by simp
  then have "256 * (little_endian xs + 1) \<le> 256 * 256 ^ length xs" by simp
  ultimately show ?case using Cons by (simp add: algebra_simps)
qed

lemma little_endian_take:
  assumes "length (take 4 bs) = 4"
  shows "little_endian (take 4 bs) = little_endian bs mod 2 ^ 32"
proof -
  have "little_endian bs = little_endian (take 4 bs @ drop 4 bs)" by simp
  also have "\<dots> = little_endian (take 4 bs) + 256 ^ 4 * little_endian (drop 4 bs)"
    by (simp only: little_endian_append assms)
  finally have e: "little_endian bs = little_endian (take 4 bs) + 2 ^ 32 * little_endian (drop 4 bs)"
    by simp
  have "0 \<le> little_endian (take 4 bs)" "little_endian (take 4 bs) < 2 ^ 32"
    using little_endian_bound [of "take 4 bs"] assms by simp_all
  then show ?thesis by (simp add: e)
qed

lemma for_each_Inr:
  "for_each g ms = Inr ms' \<Longrightarrow> \<forall>i' \<in> set ms'. \<exists>i \<in> set ms. g i = Inr i'"
proof (induction ms arbitrary: ms')
  case Nil
  then show ?case by simp
next
  case (Cons i rest)
  then show ?case by (auto split: sum.splits)
qed

lemma hash_time_Inr:
  assumes "hash_time py opts i = Inr i'"
  shows "\<exists>sexp. PCBmodule_kicad_sexp py opts (i'\<lparr>tedit := 0\<rparr>) = Inr sexp \<and>
           tedit i' = of_int (little_endian (md5 py (sexp_repr py sexp)) mod 2 ^ 32)"
proof -
  from assms obtain sexp t where
    s: "PCBmodule_kicad_sexp py opts (i\<lparr>tedit := 0\<rparr>) = Inr sexp" and
    u: "unpack_L (take 4 (md5 py (sexp_repr py sexp))) = Inr t" and
    i': "i' = i\<lparr>tedit := of_int t\<rparr>"
    by (auto simp: hash_time_def split: sum.splits)
  from u have l: "length (take 4 (md5 py (sexp_repr py sexp))) = 4"
    and t: "t = little_endian (take 4 (md5 py (sexp_repr py sexp)))"
    by (auto simp: unpack_L_def split: if_splits)
  have "t = little_endian (md5 py (sexp_repr py sexp)) mod 2 ^ 32"
    using little_endian_take [OF l] t by simp
  with s i' show ?thesis by simp
qed

lemma transform_hash_time:
  assumes "hashtime opts" and "transform py opts l = Inr l'"
  shows "\<exists>ms. for_each (hash_time py opts) ms = Inr (Modules l')"
  using assms
  by (auto simp: transform_def split: sum.splits if_splits)

text \<open>
  C2. With the deterministic-timestamp option, the files a run writes (and the
  exception that ends it, if any) are the same for any two clocks: the output is a
  function of the input texts, the options and the library functions. Each module
  that leaves the passes has as its timestamp the low 32 bits of the MD5 digest (read
  as a number, least significant byte first) of the text of its expression tree, the
  tree taken with the timestamp 0.
\<close>

theorem hashtime_deterministic:
  "hashtime opts \<longrightarrow>
     main py opts clock1 infile = main py opts clock2 infile \<and>
     (\<forall>library library'.
        load clock1 infile Library_empty = Inr library \<and>
        transform py opts library = Inr library' \<longrightarrow>
        (\<forall>i \<in> set (Modules library').
           \<exists>sexp. PCBmodule_kicad_sexp py opts (i\<lparr>tedit := 0\<rparr>) = Inr sexp \<and>
                  tedit i = of_int (little_endian (md5 py (sexp_repr py sexp)) mod 2 ^ 32)))"
proof (intro impI conjI allI)
  assume h: "hashtime opts"
  let ?l1 = "load clock1 infile Library_empty" and ?l2 = "load clock2 infile Library_empty"
  have a: "map_sum id untimed_library ?l1 = map_sum id untimed_library ?l2"
    by (rule load_alike) simp
  show "main py opts clock1 infile = main py opts clock2 infile"
  proof (cases ?l1)
    case (Inl e)
    with a have "?l2 = Inl e" by (cases ?l2) auto
    with Inl show ?thesis by (simp add: main_def)
  next
    case (Inr l1)
    with a obtain l2 where l2: "?l2 = Inr l2" and u: "untimed_library l1 = untimed_library l2"
      by (cases ?l2) auto
    have "transform py opts l1 = transform py opts l2"
      by (rule transform_alike [OF h u])
    with Inr l2 show ?thesis by (simp add: main_def)
  qed
next
  fix library library'
  assume h: "hashtime opts"
    and "load clock1 infile Library_empty = Inr library \<and> transform py opts library = Inr library'"
  then have t: "transform py opts library = Inr library'" by simp
  from transform_hash_time [OF h t] obtain ms where
    f: "for_each (hash_time py opts) ms = Inr (Modules library')" by blast
  show "\<forall>i \<in> set (Modules library').
           \<exists>sexp. PCBmodule_kicad_sexp py opts (i\<lparr>tedit := 0\<rparr>) = Inr sexp \<and>
                  tedit i = of_int (little_endian (md5 py (sexp_repr py sexp)) mod 2 ^ 32)"
    using for_each_Inr [OF f] hash_time_Inr by blast
qed

lemma load_scalar_module:
  "load (\<lambda>k. 1) [scalar_module] Library_empty =
     Inr \<lparr>Modules =
            [PCBmodule_new
               \<lparr>Name := ''A'', Author := ''B'', Source := ''C'', Units := Some ''NM'',
                SelectionRect := Some ''0 0 1 1'', RefText := Some ''1 2 3 4 5'',
                tedit := 1\<rparr>]\<rparr>"
  by code_simp

lemma transform_scalar_module:
  "transform toy_python hashtime_options
     \<lparr>Modules =
        [PCBmodule_new
           \<lparr>Name := ''A'', Author := ''B'', Source := ''C'', Units := Some ''NM'',
            SelectionRect := Some ''0 0 1 1'', RefText := Some ''1 2 3 4 5'',
            tedit := 1\<rparr>]\<rparr> =
     Inr \<lparr>Modules =
            [PCBmodule_new
               \<lparr>Name := ''A'', Author := ''B'', Source := ''C'', Units := Some ''NM'',
                SelectionRect := Some ''0 0 1 1'', RefText := Some ''1 2 3 4 5'',
                tedit := 67305985\<rparr>]\<rparr>"
  by code_simp

theorem hashtime_deterministic_witness:
  "hashtime hashtime_options \<and>
   main toy_python hashtime_options (\<lambda>k. 1) [scalar_module] =
     main toy_python hashtime_options (\<lambda>k. 2) [scalar_module] \<and>
   (\<exists>sexp. PCBmodule_kicad_sexp toy_python hashtime_options
             (PCBmodule_new
               \<lparr>Name := ''A'', Author := ''B'', Source := ''C'', Units := Some ''NM'',
                SelectionRect := Some ''0 0 1 1'', RefText := Some ''1 2 3 4 5'',
                tedit := 0\<rparr>) = Inr sexp \<and>
           (67305985 :: real) =
             of_int (little_endian (md5 toy_python (sexp_repr toy_python sexp)) mod 2 ^ 32))"
proof -
  have h: "hashtime hashtime_options" by (simp add: hashtime_options_def)
  note d = hashtime_deterministic
    [of hashtime_options toy_python "\<lambda>k. 1" "[scalar_module]" "\<lambda>k. 2", rule_format, OF h]
  from d [THEN conjunct2, rule_format, OF conjI [OF load_scalar_module transform_scalar_module]]
  show ?thesis using h d [THEN conjunct1] by simp
qed

end
